theory Spec2Isabelle
  imports Main
begin

section \<open>Characters and strings\<close>

text \<open>
  A Python \<open>str\<close> is modelled as a \<open>string\<close>, a list of characters, and a character
  as a code point below 256, so \<open>length\<close> is Python's \<open>len\<close>. The character tables
  below are those of Python on that range.
\<close>

definition code :: "char \<Rightarrow> nat" where
  "code c = of_char c"

text \<open>\<open>str.lower\<close> on one character: A-Z and the capital letters of Latin-1 move up by 32.\<close>

definition lower_char :: "char \<Rightarrow> char" where
  "lower_char c =
     (if (65 \<le> code c \<and> code c \<le> 90) \<or> (192 \<le> code c \<and> code c \<le> 214)
         \<or> (216 \<le> code c \<and> code c \<le> 222)
      then char_of (code c + 32) else c)"

definition lower :: "string \<Rightarrow> string" where
  "lower s = map lower_char s"

definition startswith :: "string \<Rightarrow> string \<Rightarrow> bool" where
  "startswith s p = (take (length p) s = p)"

section \<open>The syntax tree of the \<open>ast\<close> library\<close>

text \<open>
  A node of Python's \<open>ast\<close> module. The classes whose fields the scripts read have a
  constructor of their own: \<open>BoolOp(op, values)\<close>, \<open>comprehension(target, iter, ifs)\<close>,
  \<open>Import(names)\<close> and \<open>ImportFrom(module, names, level)\<close>. Every other class is
  \<open>Node cls kids\<close>: its class name and its child nodes, in the order of
  \<open>ast.iter_child_nodes\<close>. An \<open>alias\<close> is a leaf that no visitor below handles.
\<close>

record import_alias =
  alias_name :: string
  alias_asname :: "string option"

datatype ast =
    BoolOp ast "ast list"
  | comprehension ast ast "ast list"
  | Import "import_alias list"
  | ImportFrom "string option" "import_alias list" nat
  | Node string "ast list"

fun iter_child_nodes :: "ast \<Rightarrow> ast list" where
  "iter_child_nodes (BoolOp op vs) = op # vs"
| "iter_child_nodes (comprehension t i ifs) = t # i # ifs"
| "iter_child_nodes (Import als) = []"
| "iter_child_nodes (ImportFrom m als l) = []"
| "iter_child_nodes (Node cls kids) = kids"

section \<open>measure_complexity.py\<close>

subsection \<open>ComplexityAnalyzer\<close>

text \<open>
  The visitor's only state is the counter \<open>self.complexity\<close>, passed through.
  \<open>NodeVisitor.visit\<close> dispatches on the class name; every handler adds to the counter
  and then calls \<open>generic_visit\<close>, which visits the child nodes in order. A class
  without a handler goes to \<open>generic_visit\<close> directly.
\<close>

fun visit_complexity :: "ast \<Rightarrow> int \<Rightarrow> int" where
  "visit_complexity (BoolOp op vs) c =
     fold visit_complexity (op # vs) (c + (int (length vs) - 1))"
| "visit_complexity (comprehension t i ifs) c =
     (let c1 = c + 1;
          c2 = (if ifs \<noteq> [] then c1 + int (length ifs) else c1)
      in fold visit_complexity (t # i # ifs) c2)"
| "visit_complexity (Import als) c = c"
| "visit_complexity (ImportFrom m als l) c = c"
| "visit_complexity (Node cls kids) c =
     (if cls \<in> set [''If'', ''While'', ''For'', ''ExceptHandler'', ''With'', ''Assert'']
      then fold visit_complexity kids (c + 1)
      else fold visit_complexity kids c)"

definition calculate_complexity :: "ast \<Rightarrow> int" where
  "calculate_complexity func_node = visit_complexity func_node 1"

subsection \<open>NestingAnalyzer\<close>

text \<open>The state is the pair \<open>(max_depth, current_depth)\<close>.\<close>

fun visit_nesting :: "ast \<Rightarrow> int \<times> int \<Rightarrow> int \<times> int" where
  "visit_nesting (Node cls kids) (max_depth, current_depth) =
     (if cls \<in> set [''If'', ''While'', ''For'', ''With'', ''Try'']
      then (let current1 = current_depth + 1;
                max1 = max max_depth current1;
                (max2, current2) = fold visit_nesting kids (max1, current1)
            in (max2, current2 - 1))
      else fold visit_nesting kids (max_depth, current_depth))"
| "visit_nesting (BoolOp op vs) s = fold visit_nesting (op # vs) s"
| "visit_nesting (comprehension t i ifs) s = fold visit_nesting (t # i # ifs) s"
| "visit_nesting (Import als) s = s"
| "visit_nesting (ImportFrom m als l) s = s"

definition calculate_max_nesting :: "ast \<Rightarrow> int" where
  "calculate_max_nesting func_node = fst (visit_nesting func_node (0, 0))"

subsection \<open>The metrics as the specification words them\<close>

text \<open>All nodes of a subtree, the root first.\<close>

fun subnodes :: "ast \<Rightarrow> ast list" where
  "subnodes (BoolOp op vs) = BoolOp op vs # subnodes op @ concat (map subnodes vs)"
| "subnodes (comprehension t i ifs) =
     comprehension t i ifs # subnodes t @ subnodes i @ concat (map subnodes ifs)"
| "subnodes (Import als) = [Import als]"
| "subnodes (ImportFrom m als l) = [ImportFrom m als l]"
| "subnodes (Node cls kids) = Node cls kids # concat (map subnodes kids)"

text \<open>A conditional branch node: if, while, for, except-clause, with-block, assert.\<close>

fun is_branch_node :: "ast \<Rightarrow> bool" where
  "is_branch_node (Node cls kids) =
     (cls = ''If'' \<or> cls = ''While'' \<or> cls = ''For'' \<or> cls = ''ExceptHandler''
      \<or> cls = ''With'' \<or> cls = ''Assert'')"
| "is_branch_node n = False"

text \<open>Operand count minus one for a boolean-operator chain, nothing for another node.\<close>

fun chain_extra :: "ast \<Rightarrow> int" where
  "chain_extra (BoolOp op vs) = int (length vs) - 1"
| "chain_extra n = 0"

fun is_generator :: "ast \<Rightarrow> bool" where
  "is_generator (comprehension t i ifs) = True"
| "is_generator n = False"

fun filter_count :: "ast \<Rightarrow> nat" where
  "filter_count (comprehension t i ifs) = length ifs"
| "filter_count n = 0"

text \<open>The number of nodes of class \<open>cls\<close> in a subtree.\<close>

fun has_class :: "string \<Rightarrow> ast \<Rightarrow> bool" where
  "has_class cls (Node c kids) = (c = cls)"
| "has_class cls n = False"

definition class_count :: "string \<Rightarrow> ast \<Rightarrow> nat" where
  "class_count cls f = length (filter (has_class cls) (subnodes f))"

definition branch_nodes :: "ast \<Rightarrow> nat" where
  "branch_nodes f =
     class_count ''If'' f + class_count ''While'' f + class_count ''For'' f
     + class_count ''ExceptHandler'' f + class_count ''With'' f + class_count ''Assert'' f"

text \<open>The operand counts of the boolean-operator chains of a subtree.\<close>

fun operands_of :: "ast \<Rightarrow> nat list" where
  "operands_of (BoolOp op vs) = [length vs]"
| "operands_of n = []"

definition chain_operands :: "ast \<Rightarrow> nat list" where
  "chain_operands f = concat (map operands_of (subnodes f))"

definition bool_chain_extras :: "ast \<Rightarrow> int" where
  "bool_chain_extras f = (\<Sum>k\<leftarrow>chain_operands f. int k - 1)"

definition comprehension_generators :: "ast \<Rightarrow> nat" where
  "comprehension_generators f = length (filter is_generator (subnodes f))"

definition comprehension_filters :: "ast \<Rightarrow> nat" where
  "comprehension_filters f = sum_list (map filter_count (subnodes f))"

text \<open>What one node adds to the counter.\<close>

definition node_weight :: "ast \<Rightarrow> int" where
  "node_weight n = int (if is_branch_node n then 1 else 0) + chain_extra n
     + int (if is_generator n then 1 else 0) + int (filter_count n)"

text \<open>
  Nesting depth: a block (if, while, for, with, try) is one level deeper than the
  deepest of its children; any other node is as deep as the deepest of its children.
\<close>

fun is_block :: "ast \<Rightarrow> bool" where
  "is_block (Node cls kids) =
     (cls = ''If'' \<or> cls = ''While'' \<or> cls = ''For'' \<or> cls = ''With'' \<or> cls = ''Try'')"
| "is_block n = False"

fun nesting_depth :: "ast \<Rightarrow> nat" where
  "nesting_depth (Node cls kids) =
     (if is_block (Node cls kids) then 1 else 0) + foldr max (map nesting_depth kids) 0"
| "nesting_depth (BoolOp op vs) = foldr max (map nesting_depth (op # vs)) 0"
| "nesting_depth (comprehension t i ifs) = foldr max (map nesting_depth (t # i # ifs)) 0"
| "nesting_depth (Import als) = 0"
| "nesting_depth (ImportFrom m als l) = 0"

text \<open>
  The functions of the specification's examples.
  \<^verbatim>\<open>def f(a, b, xs):
      if a and b:
          pass
      for x in xs:
          pass\<close>
\<close>

definition name_load :: ast where
  "name_load = Node ''Name'' [Node ''Load'' []]"

definition pass_stmt :: ast where
  "pass_stmt = Node ''Pass'' []"

definition if_for_and_function :: ast where
  "if_for_and_function =
     Node ''FunctionDef''
       [Node ''arguments'' [Node ''arg'' [], Node ''arg'' [], Node ''arg'' []],
        Node ''If'' [BoolOp (Node ''And'' []) [name_load, name_load], pass_stmt],
        Node ''For'' [Node ''Name'' [Node ''Store'' []], name_load, pass_stmt]]"

text \<open>\<^verbatim>\<open>def f(): return 1\<close>\<close>

definition straight_function :: ast where
  "straight_function =
     Node ''FunctionDef'' [Node ''arguments'' [], Node ''Return'' [Node ''Constant'' []]]"

text \<open>
  \<^verbatim>\<open>def f(a, b):
      if a:
          if b:
              pass\<close>
\<close>

definition nested_if_function :: ast where
  "nested_if_function =
     Node ''FunctionDef''
       [Node ''arguments'' [Node ''arg'' [], Node ''arg'' []],
        Node ''If'' [name_load, Node ''If'' [name_load, pass_stmt]]]"

text \<open>
  \<^verbatim>\<open>def f(a, b):
      if a:
          pass
      if b:
          pass\<close>
\<close>

definition sibling_if_function :: ast where
  "sibling_if_function =
     Node ''FunctionDef''
       [Node ''arguments'' [Node ''arg'' [], Node ''arg'' []],
        Node ''If'' [name_load, pass_stmt],
        Node ''If'' [name_load, pass_stmt]]"

section \<open>ast_parser.py: imports\<close>

record ImportInfo =
  module :: string
  names :: "string list"
  is_from_import :: bool
  is_internal :: bool

definition COMMON_EXTERNAL_PREFIXES :: "string list" where
  "COMMON_EXTERNAL_PREFIXES =
    [''os'', ''sys'', ''re'', ''json'', ''typing'', ''collections'', ''dataclasses'',
     ''pathlib'', ''asyncio'', ''logging'', ''datetime'', ''time'', ''random'',
     ''functools'', ''itertools'', ''contextlib'', ''abc'', ''enum'', ''uuid'',
     ''hashlib'', ''base64'', ''urllib'', ''http'', ''email'', ''html'', ''xml'',
     ''sqlite3'', ''socket'', ''threading'', ''multiprocessing'', ''subprocess'',
     ''unittest'', ''pytest'', ''mock'', ''requests'', ''aiohttp'', ''httpx'',
     ''pydantic'', ''sqlalchemy'', ''django'', ''flask'', ''fastapi'', ''celery'',
     ''redis'', ''kafka'', ''boto3'', ''numpy'', ''pandas'', ''scipy'']"

text \<open>\<open>_is_likely_internal_module\<close>; \<open>module.split(".")[0]\<close> is the text before the first dot.\<close>

definition is_likely_internal_module :: "string \<Rightarrow> bool" where
  "is_likely_internal_module m =
     (if m = [] then False
      else let top_level = takeWhile (\<lambda>c. c \<noteq> CHR ''.'') m in
        if startswith top_level ''_'' then True
        else if lower top_level \<in> set COMMON_EXTERNAL_PREFIXES then False
        else if startswith m ''.'' then True
        else True)"

text \<open>
  \<open>ast.walk\<close>: breadth first, from a queue that starts with the root; every node taken
  from the front puts its children at the back.
\<close>

function walk_queue :: "ast list \<Rightarrow> ast list" where
  "walk_queue [] = []"
| "walk_queue (n # todo) = n # walk_queue (todo @ iter_child_nodes n)"
  by pat_completeness auto
termination
proof (relation "measure (\<lambda>todo. \<Sum>n\<leftarrow>todo. length (subnodes n))")
  show "wf (measure (\<lambda>todo. \<Sum>n\<leftarrow>todo. length (subnodes n)))" by simp
next
  fix n :: ast and todo :: "ast list"
  have "length (subnodes n) = Suc (\<Sum>k\<leftarrow>iter_child_nodes n. length (subnodes k))"
    by (cases n) (simp_all add: length_concat comp_def)
  then show "(todo @ iter_child_nodes n, n # todo)
               \<in> measure (\<lambda>todo. \<Sum>n\<leftarrow>todo. length (subnodes n))"
    by simp
qed

definition walk :: "ast \<Rightarrow> ast list" where
  "walk tree = walk_queue [tree]"

text \<open>What one node of the walk appends to \<open>imports\<close>.\<close>

fun imports_of_node :: "ast \<Rightarrow> ImportInfo list" where
  "imports_of_node (Import als) =
     map (\<lambda>a. \<lparr>module = alias_name a,
               names = [case alias_asname a of
                          None \<Rightarrow> alias_name a
                        | Some asn \<Rightarrow> if asn = [] then alias_name a else asn],
               is_from_import = False,
               is_internal = is_likely_internal_module (alias_name a)\<rparr>) als"
| "imports_of_node (ImportFrom m als l) =
     (let modname = (case m of None \<Rightarrow> [] | Some s \<Rightarrow> s) in
      [\<lparr>module = modname,
        names = map alias_name als,
        is_from_import = True,
        is_internal = is_likely_internal_module modname\<rparr>])"
| "imports_of_node n = []"

definition parse_imports :: "ast \<Rightarrow> ImportInfo list" where
  "parse_imports tree = concat (map imports_of_node (walk tree))"

text \<open>
  The trees \<open>ast.parse\<close> returns for \<^verbatim>\<open>import os\<close>, \<^verbatim>\<open>from . import foo\<close> and
  \<^verbatim>\<open>import mycompany.widgets\<close>: a relative import has its dots in \<open>level\<close>, and
  \<open>module\<close> is \<open>None\<close> when nothing follows them.
\<close>

definition import_os :: ast where
  "import_os = Node ''Module'' [Import [\<lparr>alias_name = ''os'', alias_asname = None\<rparr>]]"

definition from_dot_import_foo :: ast where
  "from_dot_import_foo =
     Node ''Module'' [ImportFrom None [\<lparr>alias_name = ''foo'', alias_asname = None\<rparr>] 1]"

definition import_mycompany_widgets :: ast where
  "import_mycompany_widgets =
     Node ''Module'' [Import [\<lparr>alias_name = ''mycompany.widgets'', alias_asname = None\<rparr>]]"

section \<open>More of Python's strings\<close>

text \<open>\<open>str.isspace\<close> on one character; the class \<open>\s\<close> of the \<open>re\<close> module is the same set.\<close>

definition isspace :: "char \<Rightarrow> bool" where
  "isspace c = ((9 \<le> code c \<and> code c \<le> 13) \<or> (28 \<le> code c \<and> code c \<le> 32)
                \<or> code c = 133 \<or> code c = 160)"

text \<open>
  The class \<open>\w\<close> of the \<open>re\<close> module on a \<open>str\<close>: alphanumeric (\<open>str.isalnum\<close>) or the
  underscore.
\<close>

definition is_word :: "char \<Rightarrow> bool" where
  "is_word c =
     ((48 \<le> code c \<and> code c \<le> 57) \<or> (65 \<le> code c \<and> code c \<le> 90) \<or> code c = 95
      \<or> (97 \<le> code c \<and> code c \<le> 122) \<or> code c = 170 \<or> code c = 178 \<or> code c = 179
      \<or> code c = 181 \<or> code c = 185 \<or> code c = 186 \<or> (188 \<le> code c \<and> code c \<le> 190)
      \<or> (192 \<le> code c \<and> code c \<le> 214) \<or> (216 \<le> code c \<and> code c \<le> 246)
      \<or> 248 \<le> code c)"

definition is_digit :: "char \<Rightarrow> bool" where
  "is_digit c = (48 \<le> code c \<and> code c \<le> 57)"

definition newline :: char where
  "newline = CHR 0x0A"

definition lstrip :: "string \<Rightarrow> string" where
  "lstrip s = dropWhile isspace s"

definition rstrip :: "string \<Rightarrow> string" where
  "rstrip s = rev (dropWhile isspace (rev s))"

definition strip :: "string \<Rightarrow> string" where
  "strip s = rstrip (lstrip s)"

text \<open>\<open>sub in s\<close>.\<close>

fun contains :: "string \<Rightarrow> string \<Rightarrow> bool" where
  "contains sub [] = (sub = [])"
| "contains sub (c # cs) = (startswith (c # cs) sub \<or> contains sub cs)"

text \<open>\<open>s.count(sub)\<close>: occurrences that do not overlap, from the left.\<close>

function str_count :: "string \<Rightarrow> string \<Rightarrow> nat" where
  "str_count sub s =
     (if sub = [] then Suc (length s)
      else if s = [] then 0
      else if startswith s sub then Suc (str_count sub (drop (length sub) s))
      else str_count sub (tl s))"
  by pat_completeness auto
termination
  by (relation "measure (\<lambda>(sub, s). length s)") (auto simp: neq_Nil_conv)

text \<open>\<open>s.split(sep)\<close> for a separator of one character.\<close>

fun split_char :: "char \<Rightarrow> string \<Rightarrow> string list" where
  "split_char sep [] = [[]]"
| "split_char sep (c # cs) =
     (if c = sep then [] # split_char sep cs
      else (case split_char sep cs of
              [] \<Rightarrow> [[c]]
            | piece # pieces \<Rightarrow> (c # piece) # pieces))"

text \<open>\<open>sep.join(parts)\<close>.\<close>

fun join :: "string \<Rightarrow> string list \<Rightarrow> string" where
  "join sep [] = []"
| "join sep [p] = p"
| "join sep (p # q # ps) = p @ sep @ join sep (q # ps)"

text \<open>\<open>str(n)\<close> for a number that is not negative.\<close>

definition digit_char :: "nat \<Rightarrow> char" where
  "digit_char d = char_of (48 + d)"

fun str_nat :: "nat \<Rightarrow> string" where
  "str_nat n = (if n < 10 then [digit_char n] else str_nat (n div 10) @ [digit_char (n mod 10)])"

section \<open>The regular expressions of the \<open>re\<close> module\<close>

text \<open>
  The patterns of the scripts use single characters, the classes \<open>.\<close>, \<open>\s\<close>, \<open>\S\<close>,
  \<open>\w\<close>, \<open>\d\<close> and \<open>[...]\<close>, the greedy repetitions \<open>*\<close>, \<open>+\<close> and \<open>?\<close> of one of these, the
  anchors \<open>\b\<close>, \<open>^\<close> and \<open>$\<close>, and groups of alternatives \<open>(?:a|b)\<close> whose branches hold
  no further group. A pattern is the list of its parts; \<open>(?:x)?\<close> is the group \<open>(?:x|)\<close>.
\<close>

datatype cclass = Lit char | Any | Space | NonSpace | Word | Digit | OneOf "char list"

datatype item = One cclass | Star cclass | Plus cclass | Opt cclass | WordB | Bol | Eol

datatype part = Item item | Alt "item list list"

type_synonym pattern = "part list"

datatype flag = IGNORECASE | MULTILINE

text \<open>One character against a class; \<open>IGNORECASE\<close> compares lower-cased characters.\<close>

fun class_matches :: "flag list \<Rightarrow> cclass \<Rightarrow> char \<Rightarrow> bool" where
  "class_matches fl (Lit p) c =
     (if IGNORECASE \<in> set fl then lower_char c = lower_char p else c = p)"
| "class_matches fl Any c = (c \<noteq> newline)"
| "class_matches fl Space c = isspace c"
| "class_matches fl NonSpace c = (\<not> isspace c)"
| "class_matches fl Word c = is_word c"
| "class_matches fl Digit c = is_digit c"
| "class_matches fl (OneOf cs) c =
     (if IGNORECASE \<in> set fl then lower_char c \<in> set (map lower_char cs) else c \<in> set cs)"

text \<open>
  A position in the text is the character before it (\<open>None\<close> at the start) and the text
  that follows. \<open>\b\<close> holds where exactly one of the two neighbours is a word character.
\<close>

definition word_before :: "char option \<Rightarrow> bool" where
  "word_before prev = (case prev of None \<Rightarrow> False | Some c \<Rightarrow> is_word c)"

definition word_after :: "string \<Rightarrow> bool" where
  "word_after s = (case s of [] \<Rightarrow> False | c # cs \<Rightarrow> is_word c)"

definition at_boundary :: "char option \<Rightarrow> string \<Rightarrow> bool" where
  "at_boundary prev s = (word_before prev \<noteq> word_after s)"

definition at_bol :: "flag list \<Rightarrow> char option \<Rightarrow> bool" where
  "at_bol fl prev = (prev = None \<or> (MULTILINE \<in> set fl \<and> prev = Some newline))"

definition at_eol :: "flag list \<Rightarrow> string \<Rightarrow> bool" where
  "at_eol fl s = (s = [] \<or> s = [newline] \<or> (MULTILINE \<in> set fl \<and> hd s = newline))"

fun item_weight :: "item \<Rightarrow> nat" where
  "item_weight (Plus cl) = 3"
| "item_weight i = 1"

fun part_weight :: "part \<Rightarrow> nat" where
  "part_weight (Item i) = item_weight i"
| "part_weight (Alt alts) = Suc (\<Sum>a\<leftarrow>alts. Suc (\<Sum>i\<leftarrow>a. item_weight i))"

text \<open>
  The backtracking matcher: the first way, in the engine's order of preference (a
  repetition takes as much as it can, the branches of a group are tried from the left), in
  which the whole pattern matches at the position. The result is the position where the
  match ends.
\<close>

function match_here ::
  "flag list \<Rightarrow> pattern \<Rightarrow> char option \<Rightarrow> string \<Rightarrow> (char option \<times> string) option" where
  "match_here fl [] prev s = Some (prev, s)"
| "match_here fl (Item (One cl) # ps) prev s =
     (case s of
        [] \<Rightarrow> None
      | c # cs \<Rightarrow> if class_matches fl cl c then match_here fl ps (Some c) cs else None)"
| "match_here fl (Item (Opt cl) # ps) prev s =
     (case s of
        [] \<Rightarrow> match_here fl ps prev s
      | c # cs \<Rightarrow>
          if class_matches fl cl c
          then (case match_here fl ps (Some c) cs of
                  Some r \<Rightarrow> Some r
                | None \<Rightarrow> match_here fl ps prev s)
          else match_here fl ps prev s)"
| "match_here fl (Item (Star cl) # ps) prev s =
     (case s of
        [] \<Rightarrow> match_here fl ps prev s
      | c # cs \<Rightarrow>
          if class_matches fl cl c
          then (case match_here fl (Item (Star cl) # ps) (Some c) cs of
                  Some r \<Rightarrow> Some r
                | None \<Rightarrow> match_here fl ps prev s)
          else match_here fl ps prev s)"
| "match_here fl (Item (Plus cl) # ps) prev s =
     match_here fl (Item (One cl) # Item (Star cl) # ps) prev s"
| "match_here fl (Item WordB # ps) prev s =
     (if at_boundary prev s then match_here fl ps prev s else None)"
| "match_here fl (Item Bol # ps) prev s =
     (if at_bol fl prev then match_here fl ps prev s else None)"
| "match_here fl (Item Eol # ps) prev s =
     (if at_eol fl s then match_here fl ps prev s else None)"
| "match_here fl (Alt [] # ps) prev s = None"
| "match_here fl (Alt (a # alts) # ps) prev s =
     (case match_here fl (map Item a @ ps) prev s of
        Some r \<Rightarrow> Some r
      | None \<Rightarrow> match_here fl (Alt alts # ps) prev s)"
  by pat_completeness auto
termination
proof (relation "measures [\<lambda>(fl, ps, prev, s). \<Sum>p\<leftarrow>ps. part_weight p,
                           \<lambda>(fl, ps, prev, s). length s]")
  fix a :: "item list" and alts :: "item list list" and ps :: pattern
    and fl :: "flag list" and prev :: "char option" and s :: string
  have "(\<Sum>p\<leftarrow>map Item a. part_weight p) = (\<Sum>i\<leftarrow>a. item_weight i)"
    by (induction a) simp_all
  then show "((fl, map Item a @ ps, prev, s), fl, Alt (a # alts) # ps, prev, s)
      \<in> measures [\<lambda>(fl, ps, prev, s). \<Sum>p\<leftarrow>ps. part_weight p, \<lambda>(fl, ps, prev, s). length s]"
    by simp
qed simp_all

text \<open>\<open>pattern.match(s)\<close> as a truth value: a match at the start of the text.\<close>

definition re_match :: "flag list \<Rightarrow> pattern \<Rightarrow> string \<Rightarrow> bool" where
  "re_match fl p s = (match_here fl p None s \<noteq> None)"

text \<open>\<open>pattern.search(s)\<close> as a truth value: a match at some position, tried from the left.\<close>

fun search_from :: "flag list \<Rightarrow> pattern \<Rightarrow> char option \<Rightarrow> string \<Rightarrow> bool" where
  "search_from fl p prev [] = (match_here fl p prev [] \<noteq> None)"
| "search_from fl p prev (c # cs) =
     (match_here fl p prev (c # cs) \<noteq> None \<or> search_from fl p (Some c) cs)"

definition re_search :: "flag list \<Rightarrow> pattern \<Rightarrow> string \<Rightarrow> bool" where
  "re_search fl p s = search_from fl p None s"

text \<open>
  \<open>len(re.findall(p, s))\<close>: the matches that do not overlap, from the left; after an
  empty match the scan moves on by one character.
\<close>

function findall_from :: "flag list \<Rightarrow> pattern \<Rightarrow> char option \<Rightarrow> string \<Rightarrow> nat" where
  "findall_from fl p prev s =
     (case match_here fl p prev s of
        None \<Rightarrow> (case s of [] \<Rightarrow> 0 | c # cs \<Rightarrow> findall_from fl p (Some c) cs)
      | Some (prev', rest) \<Rightarrow>
          if length rest < length s then Suc (findall_from fl p prev' rest)
          else (case s of [] \<Rightarrow> 1 | c # cs \<Rightarrow> Suc (findall_from fl p (Some c) cs)))"
  by pat_completeness auto
termination
  by (relation "measure (\<lambda>(fl, p, prev, s). length s)") auto

definition findall_count :: "flag list \<Rightarrow> pattern \<Rightarrow> string \<Rightarrow> nat" where
  "findall_count fl p s = findall_from fl p None s"

text \<open>\<open>pattern.sub(repl, s)\<close> for a replacement text without group references.\<close>

function sub_from :: "flag list \<Rightarrow> pattern \<Rightarrow> string \<Rightarrow> char option \<Rightarrow> string \<Rightarrow> string" where
  "sub_from fl p repl prev s =
     (case match_here fl p prev s of
        None \<Rightarrow> (case s of [] \<Rightarrow> [] | c # cs \<Rightarrow> c # sub_from fl p repl (Some c) cs)
      | Some (prev', rest) \<Rightarrow>
          if length rest < length s then repl @ sub_from fl p repl prev' rest
          else (case s of [] \<Rightarrow> repl | c # cs \<Rightarrow> repl @ c # sub_from fl p repl (Some c) cs))"
  by pat_completeness auto
termination
  by (relation "measure (\<lambda>(fl, p, repl, prev, s). length s)") auto

definition re_sub :: "flag list \<Rightarrow> pattern \<Rightarrow> string \<Rightarrow> string \<Rightarrow> string" where
  "re_sub fl p repl s = sub_from fl p repl None s"

text \<open>Writing patterns down.\<close>

definition lit :: "string \<Rightarrow> pattern" where
  "lit s = map (\<lambda>c. Item (One (Lit c))) s"

definition lits :: "string \<Rightarrow> item list" where
  "lits s = map (\<lambda>c. One (Lit c)) s"

definition wb :: pattern where
  "wb = [Item WordB]"

definition word :: "string \<Rightarrow> pattern" where
  "word s = wb @ lit s @ wb"

section \<open>classifier.py\<close>

datatype Classification = CRITICAL | HIGH_COMPLEXITY | STANDARD | UTILITY

record ClassificationResult =
  classification :: Classification
  lines_of_code :: nat
  num_dependencies :: nat
  critical_patterns_found :: "pattern list"
  complexity_indicators :: "pattern list"
  verification_required :: bool
  reasoning :: string

definition HIGH_LOC_THRESHOLD :: nat where "HIGH_LOC_THRESHOLD = 300"
definition HIGH_DEPS_THRESHOLD :: nat where "HIGH_DEPS_THRESHOLD = 5"
definition HIGH_COMPLEXITY_PATTERN_THRESHOLD :: nat where "HIGH_COMPLEXITY_PATTERN_THRESHOLD = 3"
definition UTILITY_LOC_MAX :: nat where "UTILITY_LOC_MAX = 100"
definition UTILITY_DEPS_MAX :: nat where "UTILITY_DEPS_MAX = 3"
definition CRITICAL_PATTERN_MIN :: nat where "CRITICAL_PATTERN_MIN = 3"

text \<open>
  A pattern string of the tables stands here in its parsed form, in the order of the
  source: \<^verbatim>\<open>\bauth\<close>, \<^verbatim>\<open>\btoken\b\<close>, \<^verbatim>\<open>\bjwt\b\<close>, \<^verbatim>\<open>\bsecret\b\<close>, \<^verbatim>\<open>\bcredential\<close>,
  \<^verbatim>\<open>\bpassword\b\<close>, \<^verbatim>\<open>\bpermission\<close>, \<^verbatim>\<open>\baccess.?control\<close>, \<^verbatim>\<open>\bencrypt\<close>,
  \<^verbatim>\<open>\bdecrypt\<close>, \<^verbatim>\<open>\bprivate.?key\<close>, \<^verbatim>\<open>\bapi.?key\<close>, \<^verbatim>\<open>\bsession\b\<close>, \<^verbatim>\<open>\boauth\<close>,
  \<^verbatim>\<open>\bsecurity\<close>.
\<close>

definition CRITICAL_PATTERNS :: "pattern list" where
  "CRITICAL_PATTERNS =
    [wb @ lit ''auth'',
     word ''token'',
     word ''jwt'',
     word ''secret'',
     wb @ lit ''credential'',
     word ''password'',
     wb @ lit ''permission'',
     wb @ lit ''access'' @ [Item (Opt Any)] @ lit ''control'',
     wb @ lit ''encrypt'',
     wb @ lit ''decrypt'',
     wb @ lit ''private'' @ [Item (Opt Any)] @ lit ''key'',
     wb @ lit ''api'' @ [Item (Opt Any)] @ lit ''key'',
     word ''session'',
     wb @ lit ''oauth'',
     wb @ lit ''security'']"

text \<open>
  \<^verbatim>\<open>\basync\s+def\b\<close>, \<^verbatim>\<open>\bawait\b\<close>, \<^verbatim>\<open>\bstate\b.*\bmachine\b\<close>, \<^verbatim>\<open>\bfsm\b\<close>,
  \<^verbatim>\<open>\btransition\b\<close>, \<^verbatim>\<open>\bcircuit.?breaker\b\<close>, \<^verbatim>\<open>\bretry\b\<close>, \<^verbatim>\<open>\bbackoff\b\<close>,
  \<^verbatim>\<open>\block\b\<close>, \<^verbatim>\<open>\bsemaphore\b\<close>, \<^verbatim>\<open>\bmutex\b\<close>, \<^verbatim>\<open>\bthread\b\<close>, \<^verbatim>\<open>\bprocess\b\<close>,
  \<^verbatim>\<open>\bqueue\b\<close>, \<^verbatim>\<open>\bcallback\b\<close>, \<^verbatim>\<open>\bevent.?loop\b\<close>.
\<close>

definition COMPLEXITY_PATTERNS :: "pattern list" where
  "COMPLEXITY_PATTERNS =
    [wb @ lit ''async'' @ [Item (Plus Space)] @ lit ''def'' @ wb,
     word ''await'',
     word ''state'' @ [Item (Star Any)] @ word ''machine'',
     word ''fsm'',
     word ''transition'',
     wb @ lit ''circuit'' @ [Item (Opt Any)] @ lit ''breaker'' @ wb,
     word ''retry'',
     word ''backoff'',
     word ''lock'',
     word ''semaphore'',
     word ''mutex'',
     word ''thread'',
     word ''process'',
     word ''queue'',
     word ''callback'',
     wb @ lit ''event'' @ [Item (Opt Any)] @ lit ''loop'' @ wb]"

definition triple_double :: string where
  "triple_double = replicate 3 (CHR 0x22)"

definition triple_single :: string where
  "triple_single = replicate 3 (CHR 0x27)"

text \<open>The body of the loop of \<open>count_lines\<close>, on the state \<open>(code_lines, in_docstring)\<close>.\<close>

definition count_lines_step :: "string \<Rightarrow> nat \<times> bool \<Rightarrow> nat \<times> bool" where
  "count_lines_step line st =
     (let (code_lines, in_docstring) = st;
          stripped = strip line in
      if stripped = [] then (code_lines, in_docstring)
      else if (contains triple_double stripped \<or> contains triple_single stripped)
              \<and> (str_count triple_double stripped = 2 \<or> str_count triple_single stripped = 2)
      then (code_lines, in_docstring)
      else if (contains triple_double stripped \<or> contains triple_single stripped)
              \<and> (str_count triple_double stripped = 1 \<or> str_count triple_single stripped = 1)
      then (code_lines, \<not> in_docstring)
      else if in_docstring then (code_lines, in_docstring)
      else if startswith stripped ''#'' then (code_lines, in_docstring)
      else (code_lines + 1, in_docstring))"

definition count_lines :: "string \<Rightarrow> nat" where
  "count_lines content = fst (fold count_lines_step (split_char newline content) (0, False))"

text \<open>\<^verbatim>\<open>^(?:from\s+\S+\s+)?import\s+\<close> with \<open>re.MULTILINE\<close>.\<close>

definition import_pattern :: pattern where
  "import_pattern =
     [Item Bol,
      Alt [lits ''from'' @ [Plus Space, Plus NonSpace, Plus Space], []]]
     @ lit ''import'' @ [Item (Plus Space)]"

definition count_imports :: "string \<Rightarrow> nat" where
  "count_imports content = findall_count [MULTILINE] import_pattern content"

definition find_patterns :: "string \<Rightarrow> pattern list \<Rightarrow> pattern list" where
  "find_patterns content patterns =
     (let content_lower = lower content in
      filter (\<lambda>p. re_search [IGNORECASE] p content_lower) patterns)"

definition primary_critical :: "pattern list" where
  "primary_critical =
     [wb @ lit ''auth'', word ''secret'', wb @ lit ''credential'', wb @ lit ''encrypt'']"

definition classify_from_content :: "string \<Rightarrow> string \<Rightarrow> ClassificationResult" where
  "classify_from_content content file_name =
     (let loc = count_lines content;
          num_deps = count_imports content;
          critical_found = find_patterns content CRITICAL_PATTERNS;
          complexity_found = find_patterns content COMPLEXITY_PATTERNS;
          (cls, reasoning_parts) =
            (if critical_found \<noteq> [] then
               (let has_primary_critical = (\<exists>p \<in> set primary_critical. p \<in> set critical_found) in
                if length critical_found \<ge> CRITICAL_PATTERN_MIN \<or> has_primary_critical
                then (CRITICAL,
                      [''Critical patterns found: '' @ str_nat (length critical_found) @ '' matches''])
                else (HIGH_COMPLEXITY,
                      [''Some critical patterns: '' @ str_nat (length critical_found)]))
             else if loc > HIGH_LOC_THRESHOLD \<or> num_deps > HIGH_DEPS_THRESHOLD
                     \<or> length complexity_found \<ge> HIGH_COMPLEXITY_PATTERN_THRESHOLD
             then (HIGH_COMPLEXITY,
                   (if loc > HIGH_LOC_THRESHOLD then [''High LOC: '' @ str_nat loc] else [])
                   @ (if num_deps > HIGH_DEPS_THRESHOLD
                      then [''Many dependencies: '' @ str_nat num_deps] else [])
                   @ (if length complexity_found \<ge> HIGH_COMPLEXITY_PATTERN_THRESHOLD
                      then [''Complexity patterns: '' @ str_nat (length complexity_found)] else []))
             else if loc < UTILITY_LOC_MAX \<and> num_deps \<le> UTILITY_DEPS_MAX \<and> complexity_found = []
             then (UTILITY, [''Small file with few dependencies''])
             else (STANDARD, [''Standard business logic'']));
          required = (cls \<in> set [CRITICAL, HIGH_COMPLEXITY])
      in \<lparr>classification = cls,
          lines_of_code = loc,
          num_dependencies = num_deps,
          critical_patterns_found = critical_found,
          complexity_indicators = complexity_found,
          verification_required = required,
          reasoning = join ''; '' reasoning_parts\<rparr>)"

subsection \<open>Whole words and the example file\<close>

text \<open>
  The word \<open>w\<close> stands at a position of a text when the text goes on with \<open>w\<close> and neither
  the character before nor the character after it is a word character. It occurs as a whole
  word when it stands at some position.
\<close>

definition word_at :: "string \<Rightarrow> char option \<Rightarrow> string \<Rightarrow> bool" where
  "word_at w prev s =
     (startswith s w \<and> \<not> word_before prev \<and> \<not> word_after (drop (length w) s))"

fun whole_word_from :: "string \<Rightarrow> char option \<Rightarrow> string \<Rightarrow> bool" where
  "whole_word_from w prev [] = word_at w prev []"
| "whole_word_from w prev (c # cs) = (word_at w prev (c # cs) \<or> whole_word_from w (Some c) cs)"

definition whole_word :: "string \<Rightarrow> string \<Rightarrow> bool" where
  "whole_word w s = whole_word_from w None s"

text \<open>A file of 50 lines of code: two imports and 48 assignments.\<close>

definition small_file :: string where
  "small_file =
     ''import os'' @ [newline] @ ''import sys'' @ [newline]
     @ concat (replicate 48 (''x = 1'' @ [newline]))"

text \<open>A text with the three words.\<close>

definition secrets_file :: string where
  "secrets_file = ''password = encrypt(jwt)''"

section \<open>comment_rewriter.py: classification\<close>

datatype CommentType =
  FUNCTION | DESIGN | WHY | TEACHER | CHECKLIST | GUIDE | TRIVIAL | DEBT | BACKUP | UNKNOWN

datatype CommentClassification = KEEP | ENHANCE | REWRITE | DELETE

record CommentInfo =
  line_number :: nat
  column :: nat
  comment_text :: string
  raw_text :: string
  is_docstring :: bool
  is_inline :: bool
  comment_type :: CommentType
  comment_classification :: CommentClassification
  reason :: string
  suggestion :: "string option"

text \<open>A compiled pattern: \<open>re.compile(p, flags)\<close>.\<close>

type_synonym compiled = "flag list \<times> pattern"

definition pattern_search :: "compiled \<Rightarrow> string \<Rightarrow> bool" where
  "pattern_search cp s = re_search (fst cp) (snd cp) s"

definition pattern_match :: "compiled \<Rightarrow> string \<Rightarrow> bool" where
  "pattern_match cp s = re_match (fst cp) (snd cp) s"

definition pattern_sub :: "compiled \<Rightarrow> string \<Rightarrow> string \<Rightarrow> string" where
  "pattern_sub cp repl s = re_sub (fst cp) (snd cp) repl s"

text \<open>
  \<^verbatim>\<open>\bTODO\b\<close>, \<^verbatim>\<open>\bFIXME\b\<close>, \<^verbatim>\<open>\bXXX\b\<close>, \<^verbatim>\<open>\bHACK\b\<close>, \<^verbatim>\<open>\bBUG\b\<close>,
  \<^verbatim>\<open>\bWORKAROUND\b\<close>, \<^verbatim>\<open>\bTEMP\b\<close>, \<^verbatim>\<open>\bTEMPORARY\b\<close>, each with \<open>re.IGNORECASE\<close>.
\<close>

definition DEBT_PATTERNS :: "compiled list" where
  "DEBT_PATTERNS =
    [([IGNORECASE], word ''TODO''),
     ([IGNORECASE], word ''FIXME''),
     ([IGNORECASE], word ''XXX''),
     ([IGNORECASE], word ''HACK''),
     ([IGNORECASE], word ''BUG''),
     ([IGNORECASE], word ''WORKAROUND''),
     ([IGNORECASE], word ''TEMP''),
     ([IGNORECASE], word ''TEMPORARY'')]"

text \<open>
  \<^verbatim>\<open>\bif you (?:change|modify|update)\b\<close>, \<^verbatim>\<open>\bremember to\b\<close>, \<^verbatim>\<open>\bdon'?t forget\b\<close>,
  \<^verbatim>\<open>\balso update\b\<close>, \<^verbatim>\<open>\bmust be kept in sync\b\<close>, \<^verbatim>\<open>\bsee also\b\<close>,
  \<^verbatim>\<open>\bwhen changing\b\<close>, each with \<open>re.IGNORECASE\<close>.
\<close>

definition CHECKLIST_PATTERNS :: "compiled list" where
  "CHECKLIST_PATTERNS =
    [([IGNORECASE],
      wb @ lit ''if you '' @ [Alt [lits ''change'', lits ''modify'', lits ''update'']] @ wb),
     ([IGNORECASE], word ''remember to''),
     ([IGNORECASE], wb @ lit ''don'' @ [Item (Opt (Lit (CHR 0x27)))] @ lit ''t forget'' @ wb),
     ([IGNORECASE], word ''also update''),
     ([IGNORECASE], word ''must be kept in sync''),
     ([IGNORECASE], word ''see also''),
     ([IGNORECASE], word ''when changing'')]"

text \<open>
  \<^verbatim>\<open>\bbecause\b\<close>, \<^verbatim>\<open>\bthe reason\b\<close>, \<^verbatim>\<open>\bwe (?:do|use) this\b\<close>,
  \<^verbatim>\<open>\bthis is (?:necessary|needed|required)\b\<close>, \<^verbatim>\<open>\bto avoid\b\<close>, \<^verbatim>\<open>\bto prevent\b\<close>,
  \<^verbatim>\<open>\bworkaround for\b\<close>, \<^verbatim>\<open>\bdue to\b\<close>, \<^verbatim>\<open>\brequired by\b\<close>, \<^verbatim>\<open>\bhistorically\b\<close>,
  each with \<open>re.IGNORECASE\<close>.
\<close>

definition WHY_PATTERNS :: "compiled list" where
  "WHY_PATTERNS =
    [([IGNORECASE], word ''because''),
     ([IGNORECASE], word ''the reason''),
     ([IGNORECASE], wb @ lit ''we '' @ [Alt [lits ''do'', lits ''use'']] @ lit '' this'' @ wb),
     ([IGNORECASE],
      wb @ lit ''this is '' @ [Alt [lits ''necessary'', lits ''needed'', lits ''required'']] @ wb),
     ([IGNORECASE], word ''to avoid''),
     ([IGNORECASE], word ''to prevent''),
     ([IGNORECASE], word ''workaround for''),
     ([IGNORECASE], word ''due to''),
     ([IGNORECASE], word ''required by''),
     ([IGNORECASE], word ''historically'')]"

text \<open>
  \<^verbatim>\<open>\balgorithm\b\<close>, \<^verbatim>\<open>\bprotocol\b\<close>, \<^verbatim>\<open>\bformula\b\<close>, \<^verbatim>\<open>\bequation\b\<close>, \<^verbatim>\<open>\btheorem\b\<close>,
  \<^verbatim>\<open>\bRFC\s*\d+\b\<close>, \<^verbatim>\<open>\bsee (?:http|https)://\b\<close>, \<^verbatim>\<open>\brefer to\b\<close>,
  \<^verbatim>\<open>\bexplained in\b\<close>, each with \<open>re.IGNORECASE\<close>.
\<close>

definition TEACHER_PATTERNS :: "compiled list" where
  "TEACHER_PATTERNS =
    [([IGNORECASE], word ''algorithm''),
     ([IGNORECASE], word ''protocol''),
     ([IGNORECASE], word ''formula''),
     ([IGNORECASE], word ''equation''),
     ([IGNORECASE], word ''theorem''),
     ([IGNORECASE], wb @ lit ''RFC'' @ [Item (Star Space), Item (Plus Digit)] @ wb),
     ([IGNORECASE], wb @ lit ''see '' @ [Alt [lits ''http'', lits ''https'']] @ lit ''://'' @ wb),
     ([IGNORECASE], word ''refer to''),
     ([IGNORECASE], word ''explained in'')]"

text \<open>
  \<^verbatim>\<open>^[\s]*[-=]+[\s]*$\<close>, \<^verbatim>\<open>^[\s]*#+ \<close>, \<^verbatim>\<open>^\s*section\s*:?\s*\<close> (with \<open>re.IGNORECASE\<close>),
  \<^verbatim>\<open>^[\s]*[/\*]+ \<close>.
\<close>

definition GUIDE_PATTERNS :: "compiled list" where
  "GUIDE_PATTERNS =
    [([], [Item Bol, Item (Star Space), Item (Plus (OneOf ''-='')), Item (Star Space), Item Eol]),
     ([], [Item Bol, Item (Star Space), Item (Plus (Lit CHR ''#'')), Item (One (Lit CHR '' ''))]),
     ([IGNORECASE],
      [Item Bol, Item (Star Space)] @ lit ''section''
      @ [Item (Star Space), Item (Opt (Lit CHR '':'')), Item (Star Space)]),
     ([], [Item Bol, Item (Star Space), Item (Plus (OneOf ''/*'')), Item (One (Lit CHR '' ''))])]"

text \<open>
  \<^verbatim>\<open>^\s*#\s*(?:def|class|import|from|if|for|while|try|except|with|return|yield|raise)\s+\<close>
  (with \<open>re.IGNORECASE\<close>), \<^verbatim>\<open>^\s*#\s*\w+\s*[=\(]\<close>, \<^verbatim>\<open>^\s*#\s*\w+\.\w+\(\<close>,
  \<^verbatim>\<open>^\s*#\s*@\w+\<close>, \<^verbatim>\<open>^\s*#\s*\w+:\s*\w+\s*[=,]\<close>.
\<close>

definition comment_start :: pattern where
  "comment_start = [Item Bol, Item (Star Space), Item (One (Lit CHR ''#'')), Item (Star Space)]"

definition CODE_PATTERNS :: "compiled list" where
  "CODE_PATTERNS =
    [([IGNORECASE],
      comment_start
      @ [Alt [lits ''def'', lits ''class'', lits ''import'', lits ''from'', lits ''if'',
              lits ''for'', lits ''while'', lits ''try'', lits ''except'', lits ''with'',
              lits ''return'', lits ''yield'', lits ''raise''],
         Item (Plus Space)]),
     ([], comment_start @ [Item (Plus Word), Item (Star Space), Item (One (OneOf ''=(''))]),
     ([], comment_start
          @ [Item (Plus Word), Item (One (Lit CHR ''.'')), Item (Plus Word),
             Item (One (Lit CHR ''(''))]),
     ([], comment_start @ [Item (One (Lit CHR ''@'')), Item (Plus Word)]),
     ([], comment_start
          @ [Item (Plus Word), Item (One (Lit CHR '':'')), Item (Star Space), Item (Plus Word),
             Item (Star Space), Item (One (OneOf ''=,''))])]"

text \<open>
  The pairs of a comment pattern (each with \<open>re.IGNORECASE\<close>) and a code pattern:
  \<^verbatim>\<open>#\s*increment\b\<close> with \<^verbatim>\<open>\+\+|\+=\s*1\<close>, \<^verbatim>\<open>#\s*decrement\b\<close> with \<^verbatim>\<open>--|-=\s*1\<close>,
  \<^verbatim>\<open>#\s*return\b\<close> with \<^verbatim>\<open>\breturn\b\<close>, \<^verbatim>\<open>#\s*loop\b\<close> with \<^verbatim>\<open>\bfor\b|\bwhile\b\<close>,
  \<^verbatim>\<open>#\s*import\b\<close> with \<^verbatim>\<open>\bimport\b\<close>, \<^verbatim>\<open>#\s*set\s+\w+\<close> with \<^verbatim>\<open>=\<close>,
  \<^verbatim>\<open>#\s*call\s+\w+\<close> with \<^verbatim>\<open>\(\<close>, \<^verbatim>\<open>#\s*if\s+\w+\<close> with \<^verbatim>\<open>\bif\b\<close>.
\<close>

definition hash_then :: "string \<Rightarrow> pattern" where
  "hash_then w = [Item (One (Lit CHR ''#'')), Item (Star Space)] @ lit w"

definition TRIVIAL_INDICATORS :: "(compiled \<times> compiled) list" where
  "TRIVIAL_INDICATORS =
    [(([IGNORECASE], hash_then ''increment'' @ wb),
      ([], [Alt [lits ''++'', lits ''+='' @ [Star Space, One (Lit CHR ''1'')]]])),
     (([IGNORECASE], hash_then ''decrement'' @ wb),
      ([], [Alt [lits ''--'', lits ''-='' @ [Star Space, One (Lit CHR ''1'')]]])),
     (([IGNORECASE], hash_then ''return'' @ wb), ([], word ''return'')),
     (([IGNORECASE], hash_then ''loop'' @ wb),
      ([], [Alt [WordB # lits ''for'' @ [WordB], WordB # lits ''while'' @ [WordB]]])),
     (([IGNORECASE], hash_then ''import'' @ wb), ([], word ''import'')),
     (([IGNORECASE], hash_then ''set'' @ [Item (Plus Space), Item (Plus Word)]), ([], lit ''='')),
     (([IGNORECASE], hash_then ''call'' @ [Item (Plus Space), Item (Plus Word)]), ([], lit ''('')),
     (([IGNORECASE], hash_then ''if'' @ [Item (Plus Space), Item (Plus Word)]), ([], word ''if''))]"

text \<open>
  \<^verbatim>\<open>\b(?:TODO|FIXME|XXX|HACK|BUG|WORKAROUND|TEMP|TEMPORARY)\b:?\s*\<close> with \<open>re.IGNORECASE\<close>.
\<close>

definition DEBT_REMOVAL_PATTERN :: compiled where
  "DEBT_REMOVAL_PATTERN =
     ([IGNORECASE],
      wb @ [Alt [lits ''TODO'', lits ''FIXME'', lits ''XXX'', lits ''HACK'', lits ''BUG'',
                 lits ''WORKAROUND'', lits ''TEMP'', lits ''TEMPORARY'']]
      @ wb @ [Item (Opt (Lit CHR '':'')), Item (Star Space)])"

text \<open>
  \<open>classify_comment\<close>. A loop that returns at the first pattern that matches is the test
  whether some pattern of the table matches.
\<close>

definition classify_comment ::
  "string \<Rightarrow> string \<Rightarrow> bool \<Rightarrow> bool \<Rightarrow> string option
     \<Rightarrow> CommentType \<times> CommentClassification \<times> string" where
  "classify_comment txt raw inline docstring line_content =
     (let text_lower = lower txt in
      if docstring then
        (if length txt < 10
         then (FUNCTION, ENHANCE, ''Docstring too brief - needs more detail'')
         else (FUNCTION, KEEP, ''Docstring provides API documentation''))
      else if \<exists>p \<in> set CODE_PATTERNS. pattern_match p raw
      then (BACKUP, DELETE, ''Commented-out code should be removed (use git history)'')
      else if \<exists>p \<in> set DEBT_PATTERNS. pattern_search p txt
      then (DEBT, REWRITE, ''Debt marker found - resolve or document in design comments'')
      else if (case line_content of
                 None \<Rightarrow> False
               | Some lc \<Rightarrow>
                   lc \<noteq> [] \<and> inline
                   \<and> (\<exists>(comment_pattern, code_pattern) \<in> set TRIVIAL_INDICATORS.
                         pattern_search comment_pattern raw \<and> pattern_search code_pattern lc))
      then (TRIVIAL, DELETE, ''Comment restates what code already says'')
      else if \<exists>p \<in> set CHECKLIST_PATTERNS. pattern_search p text_lower
      then (CHECKLIST, KEEP, ''Checklist comment - reminds of coordinated changes'')
      else if \<exists>p \<in> set WHY_PATTERNS. pattern_search p text_lower
      then (WHY, KEEP, ''Why comment - explains reasoning behind code'')
      else if \<exists>p \<in> set TEACHER_PATTERNS. pattern_search p text_lower
      then (TEACHER, KEEP, ''Teacher comment - educates about domain concepts'')
      else if \<exists>p \<in> set GUIDE_PATTERNS. pattern_match p txt
      then (GUIDE, KEEP, ''Guide comment - provides structure and rhythm'')
      else if inline \<and> length txt < 20
      then (TRIVIAL, ENHANCE, ''Short inline comment - consider expanding or removing'')
      else (UNKNOWN, ENHANCE, ''Cannot classify automatically - human review needed''))"

definition suggest_rewrite :: "CommentInfo \<Rightarrow> string option" where
  "suggest_rewrite comment =
     (if comment_classification comment = DELETE then None
      else if comment_type comment = DEBT then
        (let task_text = pattern_sub DEBT_REMOVAL_PATTERN [] (comment_text comment) in
         Some (''# DESIGN DECISION: '' @ strip task_text @ [newline]
               @ ''# Context: [Add why this is deferred and conditions for completion]''))
      else if comment_type comment = TRIVIAL then
        Some ''# WHY: [Explain the reasoning behind this code, not what it does]''
      else if comment_type comment = FUNCTION \<and> comment_classification comment = ENHANCE then
        Some (triple_double @ ''[Brief description of what this does]'' @ [newline, newline]
              @ ''Args:'' @ [newline] @ ''    [parameter]: [description]'' @ [newline, newline]
              @ ''Returns:'' @ [newline] @ ''    [description of return value]''
              @ [newline, newline]
              @ ''Raises:'' @ [newline] @ ''    [Exception]: [when it is raised]'' @ [newline]
              @ triple_double)
      else None)"

text \<open>
  The comment record that \<open>_analyze_comments_impl\<close> builds for one comment token, with
  its suggestion.
\<close>

definition comment_info ::
  "nat \<Rightarrow> nat \<Rightarrow> string \<Rightarrow> string \<Rightarrow> bool \<Rightarrow> string \<Rightarrow> CommentInfo" where
  "comment_info line_num col txt raw inline line_content =
     (let (ctype, cls, why) = classify_comment txt raw inline False (Some line_content);
          comment = \<lparr>line_number = line_num, column = col, comment_text = txt, raw_text = raw,
                     is_docstring = False, is_inline = inline, comment_type = ctype,
                     comment_classification = cls, reason = why, suggestion = None\<rparr>
      in comment\<lparr>suggestion := suggest_rewrite comment\<rparr>)"

section \<open>Properties of the complexity metrics\<close>

lemma node_weight_simps:
  "node_weight (BoolOp op vs) = int (length vs) - 1"
  "node_weight (comprehension t i ifs) = 1 + int (length ifs)"
  "node_weight (Import als) = 0"
  "node_weight (ImportFrom m als l) = 0"
  "node_weight (Node cls kids) =
     (if cls \<in> set [''If'', ''While'', ''For'', ''ExceptHandler'', ''With'', ''Assert''] then 1 else 0)"
  by (simp_all add: node_weight_def)

lemma fold_visit_complexity:
  assumes "\<And>x c. x \<in> set xs \<Longrightarrow> visit_complexity x c = c + sum_list (map node_weight (subnodes x))"
  shows "fold visit_complexity xs c = c + sum_list (map node_weight (concat (map subnodes xs)))"
  using assms by (induction xs arbitrary: c) simp_all

lemma visit_complexity_weight:
  "visit_complexity n c = c + sum_list (map node_weight (subnodes n))"
proof (induction n c rule: visit_complexity.induct)
  case (1 op vs c)
  have "fold visit_complexity (op # vs) (c + (int (length vs) - 1)) =
        (c + (int (length vs) - 1)) + sum_list (map node_weight (concat (map subnodes (op # vs))))"
    by (rule fold_visit_complexity) (use 1 in auto)
  then show ?case by (simp add: node_weight_simps)
next
  case (2 t i ifs c)
  have "fold visit_complexity (t # i # ifs) (c + 1 + int (length ifs)) =
        (c + 1 + int (length ifs)) + sum_list (map node_weight (concat (map subnodes (t # i # ifs))))"
    by (rule fold_visit_complexity) (use 2 in \<open>auto simp: Let_def\<close>)
  then show ?case by (cases "ifs = []") (simp_all add: node_weight_simps Let_def)
next
  case (3 als c)
  then show ?case by (simp add: node_weight_simps)
next
  case (4 m als l c)
  then show ?case by (simp add: node_weight_simps)
next
  case (5 cls kids c)
  show ?case
  proof (cases "cls \<in> set [''If'', ''While'', ''For'', ''ExceptHandler'', ''With'', ''Assert'']")
    case True
    have "fold visit_complexity kids (c + 1) =
          (c + 1) + sum_list (map node_weight (concat (map subnodes kids)))"
      by (rule fold_visit_complexity) (use 5 True in auto)
    with True show ?thesis by (simp add: node_weight_simps)
  next
    case False
    have "fold visit_complexity kids c =
          c + sum_list (map node_weight (concat (map subnodes kids)))"
      by (rule fold_visit_complexity) (use 5 False in auto)
    with False show ?thesis by (simp add: node_weight_simps)
  qed
qed

lemma branch_filter_classes:
  "length (filter is_branch_node xs) =
     length (filter (has_class ''If'') xs) + length (filter (has_class ''While'') xs)
     + length (filter (has_class ''For'') xs) + length (filter (has_class ''ExceptHandler'') xs)
     + length (filter (has_class ''With'') xs) + length (filter (has_class ''Assert'') xs)"
proof (induction xs)
  case Nil
  then show ?case by simp
next
  case (Cons x xs)
  then show ?case by (cases x) auto
qed

lemma chain_extra_operands:
  "sum_list (map chain_extra xs) = (\<Sum>k\<leftarrow>concat (map operands_of xs). int k - 1)"
proof (induction xs)
  case Nil
  then show ?case by simp
next
  case (Cons x xs)
  then show ?case by (cases x) simp_all
qed

lemma sum_node_weight:
  "sum_list (map node_weight xs) =
     int (length (filter is_branch_node xs)) + sum_list (map chain_extra xs)
     + int (length (filter is_generator xs)) + int (sum_list (map filter_count xs))"
  by (induction xs) (simp_all add: node_weight_def)

lemma no_generator_no_filter:
  "length (filter is_generator xs) = 0 \<Longrightarrow> sum_list (map filter_count xs) = 0"
proof (induction xs)
  case Nil
  then show ?case by simp
next
  case (Cons x xs)
  then show ?case by (cases x) (simp_all split: if_splits)
qed

lemma complexity_formula:
  "calculate_complexity f =
     1 + int (branch_nodes f) + bool_chain_extras f
       + int (comprehension_generators f) + int (comprehension_filters f)"
  by (simp add: calculate_complexity_def visit_complexity_weight sum_node_weight
        branch_nodes_def class_count_def branch_filter_classes chain_extra_operands
        bool_chain_extras_def chain_operands_def comprehension_generators_def
        comprehension_filters_def)

text \<open>
  Claim C3. The cyclomatic complexity of a function is 1, plus one for each conditional branch
  node (if, while, for, except-clause, with-block, assert), plus the operand count minus one
  for each boolean-operator chain, plus one for each comprehension generator and one for each
  comprehension filter. A function without branches, boolean chains and comprehensions
  scores 1; a function with one \<open>if\<close>, one \<open>for\<close> and one two-operand boolean chain, and
  nothing else that counts, scores 4.
\<close>

theorem cyclomatic_complexity:
  "calculate_complexity f =
     1 + int (branch_nodes f) + bool_chain_extras f
       + int (comprehension_generators f) + int (comprehension_filters f)
   \<and> (branch_nodes f = 0 \<and> chain_operands f = [] \<and> comprehension_generators f = 0
        \<longrightarrow> calculate_complexity f = 1)
   \<and> (class_count ''If'' f = 1 \<and> class_count ''For'' f = 1 \<and> class_count ''While'' f = 0
        \<and> class_count ''ExceptHandler'' f = 0 \<and> class_count ''With'' f = 0
        \<and> class_count ''Assert'' f = 0 \<and> chain_operands f = [2]
        \<and> comprehension_generators f = 0
        \<longrightarrow> calculate_complexity f = 4)"
proof -
  have nofilter: "comprehension_generators f = 0 \<Longrightarrow> comprehension_filters f = 0"
    unfolding comprehension_generators_def comprehension_filters_def
    by (rule no_generator_no_filter)
  show ?thesis
    using nofilter
    by (auto simp add: complexity_formula bool_chain_extras_def branch_nodes_def)
qed

lemma example_counts:
  "class_count ''If'' if_for_and_function = 1"
  "class_count ''For'' if_for_and_function = 1"
  "class_count ''While'' if_for_and_function = 0"
  "class_count ''ExceptHandler'' if_for_and_function = 0"
  "class_count ''With'' if_for_and_function = 0"
  "class_count ''Assert'' if_for_and_function = 0"
  "chain_operands if_for_and_function = [2]"
  "comprehension_generators if_for_and_function = 0"
  by (simp_all add: class_count_def chain_operands_def comprehension_generators_def
        if_for_and_function_def name_load_def pass_stmt_def)

lemma straight_counts:
  "branch_nodes straight_function = 0"
  "chain_operands straight_function = []"
  "comprehension_generators straight_function = 0"
  by (simp_all add: branch_nodes_def class_count_def chain_operands_def comprehension_generators_def
        straight_function_def)

text \<open>The two functions of the examples satisfy the hypotheses and score 1 and 4.\<close>

theorem cyclomatic_complexity_witness:
  "branch_nodes straight_function = 0 \<and> chain_operands straight_function = []
   \<and> comprehension_generators straight_function = 0
   \<and> calculate_complexity straight_function = 1
   \<and> class_count ''If'' if_for_and_function = 1 \<and> class_count ''For'' if_for_and_function = 1
   \<and> class_count ''While'' if_for_and_function = 0
   \<and> class_count ''ExceptHandler'' if_for_and_function = 0
   \<and> class_count ''With'' if_for_and_function = 0
   \<and> class_count ''Assert'' if_for_and_function = 0
   \<and> chain_operands if_for_and_function = [2]
   \<and> comprehension_generators if_for_and_function = 0
   \<and> calculate_complexity if_for_and_function = 4"
  using cyclomatic_complexity [of straight_function] cyclomatic_complexity [of if_for_and_function]
  by (simp add: example_counts straight_counts)

subsection \<open>Nesting depth\<close>

lemma fold_visit_nesting:
  assumes "\<And>x m. x \<in> set xs \<Longrightarrow> d \<le> m \<Longrightarrow> visit_nesting x (m, d) = (max m (d + int (nesting_depth x)), d)"
    and "d \<le> m"
  shows "fold visit_nesting xs (m, d) = (max m (d + int (foldr max (map nesting_depth xs) 0)), d)"
  using assms
proof (induction xs arbitrary: m)
  case Nil
  then show ?case by simp
next
  case (Cons x xs)
  then show ?case by (simp add: max_def)
qed

lemma visit_nesting_depth:
  "d \<le> m \<Longrightarrow> visit_nesting n (m, d) = (max m (d + int (nesting_depth n)), d)"
proof (induction n "(m, d)" arbitrary: m d rule: visit_nesting.induct)
  case (1 cls kids max_depth current_depth)
  show ?case
  proof (cases "cls \<in> set [''If'', ''While'', ''For'', ''With'', ''Try'']")
    case True
    have "fold visit_nesting kids (max max_depth (current_depth + 1), current_depth + 1) =
          (max (max max_depth (current_depth + 1))
               (current_depth + 1 + int (foldr max (map nesting_depth kids) 0)), current_depth + 1)"
      by (rule fold_visit_nesting) (use 1 True in auto)
    with True show ?thesis by (simp add: Let_def max_def)
  next
    case False
    have "fold visit_nesting kids (max_depth, current_depth) =
          (max max_depth (current_depth + int (foldr max (map nesting_depth kids) 0)), current_depth)"
      by (rule fold_visit_nesting) (use 1 False in auto)
    with False show ?thesis by simp
  qed
next
  case (2 op vs)
  have "fold visit_nesting (op # vs) (m, d) =
        (max m (d + int (foldr max (map nesting_depth (op # vs)) 0)), d)"
    by (rule fold_visit_nesting) (use 2 in auto)
  then show ?case by simp
next
  case (3 t i ifs)
  have "fold visit_nesting (t # i # ifs) (m, d) =
        (max m (d + int (foldr max (map nesting_depth (t # i # ifs)) 0)), d)"
    by (rule fold_visit_nesting) (use 3 in auto)
  then show ?case by simp
next
  case (4 als)
  then show ?case by simp
next
  case (5 mo als l)
  then show ?case by simp
qed

lemma max_nesting_is_depth: "calculate_max_nesting f = int (nesting_depth f)"
  by (simp add: calculate_max_nesting_def visit_nesting_depth)

lemma foldr_max_zero: "(\<forall>x\<in>set xs. g x = (0::nat)) \<Longrightarrow> foldr max (map g xs) 0 = 0"
  by (induction xs) simp_all

text \<open>
  Claim C4. The maximum nesting depth counts nested if, while, for, with and try blocks and
  is the maximum over the traversal, not a sum over siblings: a function whose body is an
  \<open>if\<close> that contains another \<open>if\<close> has depth 2, and a function whose body is an \<open>if\<close>
  followed by a sibling \<open>if\<close> has depth 1 (tests and inner bodies holding no block).
\<close>

theorem max_nesting_depth:
  "calculate_max_nesting f = int (nesting_depth f)
   \<and> (nesting_depth args = 0 \<and> nesting_depth t1 = 0 \<and> nesting_depth t2 = 0
        \<and> (\<forall>s\<in>set body. nesting_depth s = 0)
        \<longrightarrow> calculate_max_nesting
              (Node ''FunctionDef'' [args, Node ''If'' [t1, Node ''If'' (t2 # body)]]) = 2)
   \<and> (nesting_depth args = 0 \<and> nesting_depth t1 = 0 \<and> nesting_depth t2 = 0
        \<and> (\<forall>s\<in>set body. nesting_depth s = 0) \<and> (\<forall>s\<in>set body'. nesting_depth s = 0)
        \<longrightarrow> calculate_max_nesting
              (Node ''FunctionDef'' [args, Node ''If'' (t1 # body), Node ''If'' (t2 # body')]) = 1)"
  by (simp add: max_nesting_is_depth foldr_max_zero)

text \<open>The functions \<^verbatim>\<open>if a: if b: pass\<close> and \<^verbatim>\<open>if a: pass; if b: pass\<close>.\<close>

theorem max_nesting_depth_witness:
  "nesting_depth (Node ''arguments'' [Node ''arg'' [], Node ''arg'' []]) = 0
   \<and> nesting_depth name_load = 0 \<and> nesting_depth pass_stmt = 0
   \<and> calculate_max_nesting nested_if_function = 2
   \<and> calculate_max_nesting sibling_if_function = 1"
  using max_nesting_depth [of nested_if_function "Node ''arguments'' [Node ''arg'' [], Node ''arg'' []]"
      name_load name_load "[pass_stmt]" "[pass_stmt]"]
  by (simp add: nested_if_function_def sibling_if_function_def name_load_def pass_stmt_def)

section \<open>Properties of the import classification\<close>

text \<open>
  Claim C1. \<^verbatim>\<open>import os\<close> is classified external and \<^verbatim>\<open>import mycompany.widgets\<close>
  internal, as the claim says. For \<^verbatim>\<open>from . import foo\<close> the claim says internal, and
  the function's own comment says that relative imports are internal; but the module name of
  that statement is empty, and \<open>_is_likely_internal_module\<close> returns \<open>False\<close> for an empty
  name before it looks at anything else. The theorem evaluates the code at that statement.
\<close>

theorem relative_import_not_internal:
  "parse_imports from_dot_import_foo =
     [\<lparr>module = '''', names = [''foo''], is_from_import = True, is_internal = False\<rparr>]"
  by (simp add: parse_imports_def walk_def from_dot_import_foo_def is_likely_internal_module_def)

lemma import_os_external:
  "map is_internal (parse_imports import_os) = [False]"
  by (simp add: parse_imports_def walk_def import_os_def is_likely_internal_module_def
      startswith_def lower_def lower_char_def code_def COMMON_EXTERNAL_PREFIXES_def)

lemma import_unrecognized_internal:
  "map is_internal (parse_imports import_mycompany_widgets) = [True]"
  by (simp add: parse_imports_def walk_def import_mycompany_widgets_def is_likely_internal_module_def
      startswith_def lower_def lower_char_def code_def COMMON_EXTERNAL_PREFIXES_def)

section \<open>Properties of the file classifier\<close>

lemma code_char_of: "n < 256 \<Longrightarrow> code (char_of n) = n"
  by (simp add: code_def)

lemma is_word_lower_char: "is_word (lower_char c) = is_word c"
proof (cases "(65 \<le> code c \<and> code c \<le> 90) \<or> (192 \<le> code c \<and> code c \<le> 214)
                \<or> (216 \<le> code c \<and> code c \<le> 222)")
  case True
  then have lt: "code c + 32 < 256" by arith
  have "lower_char c = char_of (code c + 32)"
    using True by (simp add: lower_char_def)
  then have up: "code (lower_char c) = code c + 32"
    using lt by (simp add: code_char_of)
  from True consider "65 \<le> code c \<and> code c \<le> 90" | "192 \<le> code c \<and> code c \<le> 214"
    | "216 \<le> code c \<and> code c \<le> 222"
    by blast
  then have "is_word c \<and> is_word (lower_char c)"
  proof cases
    case 1
    then have "is_word c" by (simp add: is_word_def)
    moreover from 1 up have "97 \<le> code (lower_char c) \<and> code (lower_char c) \<le> 122" by simp
    then have "is_word (lower_char c)" by (simp add: is_word_def)
    ultimately show ?thesis by simp
  next
    case 2
    then have "is_word c" by (simp add: is_word_def)
    moreover from 2 up have "216 \<le> code (lower_char c) \<and> code (lower_char c) \<le> 246" by simp
    then have "is_word (lower_char c)" by (simp add: is_word_def)
    ultimately show ?thesis by simp
  next
    case 3
    then have "is_word c" by (simp add: is_word_def)
    moreover from 3 up have "248 \<le> code (lower_char c)" by simp
    then have "is_word (lower_char c)" by (simp add: is_word_def)
    ultimately show ?thesis by simp
  qed
  then show ?thesis by simp
next
  case False
  then have "lower_char c = c"
    unfolding lower_char_def by (simp only: if_False)
  then show ?thesis by simp
qed

lemma lit_Cons: "lit (c # w) = Item (One (Lit c)) # lit w"
  by (simp add: lit_def)

lemma class_matches_self: "class_matches fl (Lit c) c"
  by simp

lemma match_here_lit:
  "match_here fl (lit w @ ps) prev (w @ rest) =
     match_here fl ps (if w = [] then prev else Some (last w)) rest"
proof (induction w arbitrary: prev)
  case Nil
  then show ?case by (simp add: lit_def)
next
  case (Cons c w)
  then show ?case by (simp add: lit_Cons)
qed

lemma startswith_append: "startswith s w \<Longrightarrow> s = w @ drop (length w) s"
  unfolding startswith_def by (metis append_take_drop_id)

lemma word_at_match_open:
  assumes "word_at w prev s" and "w \<noteq> []" and "is_word (hd w)"
  shows "match_here fl (wb @ lit w) prev s \<noteq> None"
proof -
  obtain rest where s: "s = w @ rest"
    using assms(1) startswith_append unfolding word_at_def by blast
  have "word_after (w @ rest)"
    using assms(2,3) by (cases w) (simp_all add: word_after_def)
  then have b: "at_boundary prev s"
    using assms(1) s by (simp add: at_boundary_def word_at_def)
  have "match_here fl (lit w @ []) prev (w @ rest) \<noteq> None"
    by (subst match_here_lit) simp
  then show ?thesis
    using b s by (simp add: wb_def)
qed

lemma word_at_match_word:
  assumes "word_at w prev s" and "w \<noteq> []" and "is_word (hd w)" and "is_word (last w)"
  shows "match_here fl (word w) prev s \<noteq> None"
proof -
  obtain rest where s: "s = w @ rest" and rest: "rest = drop (length w) s"
    using assms(1) startswith_append unfolding word_at_def by blast
  have "word_after (w @ rest)"
    using assms(2,3) by (cases w) (simp_all add: word_after_def)
  then have b: "at_boundary prev s"
    using assms(1) s by (simp add: at_boundary_def word_at_def)
  have e: "at_boundary (Some (last w)) rest"
    using assms(1,4) rest by (simp add: at_boundary_def word_at_def word_before_def)
  have "match_here fl (lit w @ wb) prev (w @ rest) \<noteq> None"
    using e assms(2) by (subst match_here_lit) (simp add: wb_def)
  then show ?thesis
    using b s by (simp add: word_def wb_def)
qed

lemma search_from_whole_word:
  assumes "\<And>prev s. word_at w prev s \<Longrightarrow> match_here fl p prev s \<noteq> None"
  shows "whole_word_from w prev s \<Longrightarrow> search_from fl p prev s"
proof (induction s arbitrary: prev)
  case Nil
  then show ?case using assms by simp
next
  case (Cons c cs)
  then show ?case using assms by auto
qed

lemma word_at_lower:
  assumes "word_at w prev s"
  shows "word_at (lower w) (map_option lower_char prev) (lower s)"
proof -
  have "take (length w) s = w"
    using assms by (simp add: word_at_def startswith_def)
  then have "take (length w) (map lower_char s) = map lower_char w"
    by (metis take_map)
  moreover have "word_before (map_option lower_char prev) = word_before prev"
    by (cases prev) (simp_all add: word_before_def is_word_lower_char)
  moreover have "word_after (drop (length w) (map lower_char s)) = word_after (drop (length w) s)"
    by (cases "drop (length w) s") (simp_all add: word_after_def is_word_lower_char drop_map)
  ultimately show ?thesis
    using assms by (simp add: word_at_def startswith_def lower_def)
qed

lemma whole_word_from_lower:
  "whole_word_from w prev s \<Longrightarrow> whole_word_from (lower w) (map_option lower_char prev) (lower s)"
proof (induction s arbitrary: prev)
  case Nil
  then show ?case using word_at_lower [of w prev "[]"] by (simp add: lower_def)
next
  case (Cons c cs)
  from Cons.prems have "word_at w prev (c # cs) \<or> whole_word_from w (Some c) cs"
    by simp
  then show ?case
  proof
    assume "word_at w prev (c # cs)"
    then have "word_at (lower w) (map_option lower_char prev) (lower (c # cs))"
      by (rule word_at_lower)
    then show ?thesis by (simp add: lower_def)
  next
    assume "whole_word_from w (Some c) cs"
    then have "whole_word_from (lower w) (map_option lower_char (Some c)) (lower cs)"
      by (rule Cons.IH)
    then show ?thesis by (simp add: lower_def)
  qed
qed

lemma whole_word_lower: "whole_word w s \<Longrightarrow> whole_word (lower w) (lower s)"
  unfolding whole_word_def using whole_word_from_lower [of w None s] by simp

lemma is_word_letters:
  "is_word CHR ''p''" "is_word CHR ''d''" "is_word CHR ''j''" "is_word CHR ''t''"
  "is_word CHR ''e''"
  by (simp_all add: is_word_def code_def)

lemma lower_words:
  "lower ''password'' = ''password''" "lower ''jwt'' = ''jwt''" "lower ''encrypt'' = ''encrypt''"
  by (simp_all add: lower_def lower_char_def code_def)

lemma search_password:
  assumes "whole_word ''password'' content"
  shows "re_search fl (word ''password'') (lower content)"
proof -
  have "whole_word_from ''password'' None (lower content)"
    using whole_word_lower [OF assms] by (simp add: lower_words whole_word_def)
  then show ?thesis
    unfolding re_search_def
    by (rule search_from_whole_word [rotated])
       (rule word_at_match_word, simp_all add: is_word_letters)
qed

lemma search_jwt:
  assumes "whole_word ''jwt'' content"
  shows "re_search fl (word ''jwt'') (lower content)"
proof -
  have "whole_word_from ''jwt'' None (lower content)"
    using whole_word_lower [OF assms] by (simp add: lower_words whole_word_def)
  then show ?thesis
    unfolding re_search_def
    by (rule search_from_whole_word [rotated])
       (rule word_at_match_word, simp_all add: is_word_letters)
qed

lemma search_encrypt:
  assumes "whole_word ''encrypt'' content"
  shows "re_search fl (wb @ lit ''encrypt'') (lower content)"
proof -
  have "whole_word_from ''encrypt'' None (lower content)"
    using whole_word_lower [OF assms] by (simp add: lower_words whole_word_def)
  then show ?thesis
    unfolding re_search_def
    by (rule search_from_whole_word [rotated])
       (rule word_at_match_open, simp_all add: is_word_letters)
qed

lemma three_found:
  assumes "distinct [a, b, c]" and "set [a, b, c] \<subseteq> set xs" and "P a" and "P b" and "P c"
  shows "3 \<le> length (filter P xs)"
proof -
  have "set [a, b, c] \<subseteq> set (filter P xs)"
    using assms by auto
  then have "card (set [a, b, c]) \<le> card (set (filter P xs))"
    by (intro card_mono) simp_all
  moreover have "card (set [a, b, c]) = 3"
    using assms(1) by (subst distinct_card) simp_all
  moreover have "card (set (filter P xs)) \<le> length (filter P xs)"
    by (rule card_length)
  ultimately show ?thesis by linarith
qed

lemma three_critical_patterns:
  assumes "whole_word ''password'' content" and "whole_word ''encrypt'' content"
    and "whole_word ''jwt'' content"
  shows "3 \<le> length (find_patterns content CRITICAL_PATTERNS)"
  unfolding find_patterns_def Let_def
proof (rule three_found)
  show "distinct [word ''jwt'', word ''password'', wb @ lit ''encrypt'']"
    by (simp add: word_def wb_def lit_def)
  show "set [word ''jwt'', word ''password'', wb @ lit ''encrypt''] \<subseteq> set CRITICAL_PATTERNS"
    by (simp add: CRITICAL_PATTERNS_def)
  show "re_search [IGNORECASE] (word ''jwt'') (lower content)"
    using assms(3) by (rule search_jwt)
  show "re_search [IGNORECASE] (word ''password'') (lower content)"
    using assms(1) by (rule search_password)
  show "re_search [IGNORECASE] (wb @ lit ''encrypt'') (lower content)"
    using assms(2) by (rule search_encrypt)
qed

lemma classification_cases:
  "classification (classify_from_content content file_name) =
     (let loc = count_lines content;
          num_deps = count_imports content;
          critical_found = find_patterns content CRITICAL_PATTERNS;
          complexity_found = find_patterns content COMPLEXITY_PATTERNS
      in if critical_found \<noteq> [] then
           (if 3 \<le> length critical_found
               \<or> (\<exists>p \<in> set primary_critical. p \<in> set critical_found)
            then CRITICAL else HIGH_COMPLEXITY)
         else if 300 < loc \<or> 5 < num_deps \<or> 3 \<le> length complexity_found then HIGH_COMPLEXITY
         else if loc < 100 \<and> num_deps \<le> 3 \<and> complexity_found = [] then UTILITY
         else STANDARD)"
  unfolding classify_from_content_def Let_def split_def HIGH_LOC_THRESHOLD_def
    HIGH_DEPS_THRESHOLD_def HIGH_COMPLEXITY_PATTERN_THRESHOLD_def UTILITY_LOC_MAX_def
    UTILITY_DEPS_MAX_def CRITICAL_PATTERN_MIN_def
  by (simp add: if_distrib [of fst])

lemma verification_required_iff:
  "verification_required (classify_from_content content file_name) =
     (classification (classify_from_content content file_name) \<in> set [CRITICAL, HIGH_COMPLEXITY])"
  unfolding classify_from_content_def Let_def split_def by simp

text \<open>
  Claim C2. For every source text in which the words "password", "encrypt" and "jwt" each
  occur as whole words, at least three distinct critical patterns match, and
  \<open>classify_from_content\<close> returns CRITICAL with \<open>verification_required\<close> true.
\<close>

theorem three_critical_words_critical:
  assumes "whole_word ''password'' content" and "whole_word ''encrypt'' content"
    and "whole_word ''jwt'' content"
  shows "3 \<le> length (critical_patterns_found (classify_from_content content file_name))
         \<and> classification (classify_from_content content file_name) = CRITICAL
         \<and> verification_required (classify_from_content content file_name)"
proof -
  have three: "3 \<le> length (find_patterns content CRITICAL_PATTERNS)"
    using assms by (rule three_critical_patterns)
  then have ne: "find_patterns content CRITICAL_PATTERNS \<noteq> []"
    by auto
  have found: "critical_patterns_found (classify_from_content content file_name)
                 = find_patterns content CRITICAL_PATTERNS"
    unfolding classify_from_content_def Let_def split_def by simp
  have crit: "classification (classify_from_content content file_name) = CRITICAL"
    using three ne by (simp add: classification_cases Let_def)
  then have "verification_required (classify_from_content content file_name)"
    by (simp add: verification_required_iff)
  with three found crit show ?thesis by simp
qed

text \<open>The text \<^verbatim>\<open>password = encrypt(jwt)\<close> holds the three words.\<close>

lemma secrets_file_words:
  "whole_word ''password'' secrets_file" "whole_word ''encrypt'' secrets_file"
  "whole_word ''jwt'' secrets_file"
  by code_simp+

theorem three_critical_words_critical_witness:
  "whole_word ''password'' secrets_file \<and> whole_word ''encrypt'' secrets_file
   \<and> whole_word ''jwt'' secrets_file
   \<and> 3 \<le> length (critical_patterns_found (classify_from_content secrets_file ''secrets.py''))
   \<and> classification (classify_from_content secrets_file ''secrets.py'') = CRITICAL
   \<and> verification_required (classify_from_content secrets_file ''secrets.py'')"
  using three_critical_words_critical [OF secrets_file_words, of "''secrets.py''"]
  by (simp add: secrets_file_words)

text \<open>
  Claim C8. For every source text with no critical-pattern match, fewer than 100 counted
  lines of code, at most 3 counted imports and no complexity-indicator match,
  \<open>classify_from_content\<close> returns UTILITY.
\<close>

theorem small_plain_file_utility:
  assumes "find_patterns content CRITICAL_PATTERNS = []"
    and "count_lines content < 100"
    and "count_imports content \<le> 3"
    and "find_patterns content COMPLEXITY_PATTERNS = []"
  shows "classification (classify_from_content content file_name) = UTILITY"
proof -
  have "\<not> 300 < count_lines content" and "\<not> 5 < count_imports content"
    using assms(2,3) by auto
  then show ?thesis
    using assms by (simp add: classification_cases Let_def)
qed

subsection \<open>The example file matches no pattern\<close>

lemma lower_char_table:
  "lower_char (CHR ''a'') = CHR ''a''"
  "lower_char (CHR ''b'') = CHR ''b''"
  "lower_char (CHR ''c'') = CHR ''c''"
  "lower_char (CHR ''d'') = CHR ''d''"
  "lower_char (CHR ''e'') = CHR ''e''"
  "lower_char (CHR ''f'') = CHR ''f''"
  "lower_char (CHR ''g'') = CHR ''g''"
  "lower_char (CHR ''h'') = CHR ''h''"
  "lower_char (CHR ''i'') = CHR ''i''"
  "lower_char (CHR ''j'') = CHR ''j''"
  "lower_char (CHR ''k'') = CHR ''k''"
  "lower_char (CHR ''l'') = CHR ''l''"
  "lower_char (CHR ''m'') = CHR ''m''"
  "lower_char (CHR ''n'') = CHR ''n''"
  "lower_char (CHR ''o'') = CHR ''o''"
  "lower_char (CHR ''p'') = CHR ''p''"
  "lower_char (CHR ''q'') = CHR ''q''"
  "lower_char (CHR ''r'') = CHR ''r''"
  "lower_char (CHR ''s'') = CHR ''s''"
  "lower_char (CHR ''t'') = CHR ''t''"
  "lower_char (CHR ''u'') = CHR ''u''"
  "lower_char (CHR ''v'') = CHR ''v''"
  "lower_char (CHR ''w'') = CHR ''w''"
  "lower_char (CHR ''x'') = CHR ''x''"
  "lower_char (CHR ''y'') = CHR ''y''"
  "lower_char (CHR ''z'') = CHR ''z''"
  "lower_char (CHR '' '') = CHR '' ''"
  "lower_char (CHR ''='') = CHR ''=''"
  "lower_char (CHR ''1'') = CHR ''1''"
  "lower_char (CHR 0x0A) = CHR 0x0A"
  by (simp_all add: lower_char_def code_def)

lemma match_lit_chars:
  "match_here [IGNORECASE] (lit w @ ps) prev s \<noteq> None \<Longrightarrow> lower_char ` set w \<subseteq> lower_char ` set s"
proof (induction w arbitrary: prev s)
  case Nil
  then show ?case by simp
next
  case (Cons c w)
  show ?case
  proof (cases s)
    case Nil
    with Cons.prems show ?thesis by (simp add: lit_Cons)
  next
    case (Cons x xs)
    with Cons.prems have x: "lower_char x = lower_char c"
      and rest: "match_here [IGNORECASE] (lit w @ ps) (Some x) xs \<noteq> None"
      by (simp_all add: lit_Cons split: if_splits)
    from Cons.IH [OF rest] x Cons show ?thesis by auto
  qed
qed

lemma search_from_position:
  "search_from fl p prev s \<Longrightarrow> \<exists>prev' s'. set s' \<subseteq> set s \<and> match_here fl p prev' s' \<noteq> None"
proof (induction s arbitrary: prev)
  case Nil
  then show ?case by auto
next
  case (Cons c cs)
  show ?case
  proof (cases "match_here fl p prev (c # cs) \<noteq> None")
    case True
    then show ?thesis by blast
  next
    case False
    with Cons.prems have "search_from fl p (Some c) cs" by simp
    from Cons.IH [OF this] obtain prev' s'
      where "set s' \<subseteq> set cs" and "match_here fl p prev' s' \<noteq> None" by blast
    then have "set s' \<subseteq> set (c # cs) \<and> match_here fl p prev' s' \<noteq> None" by auto
    then show ?thesis by blast
  qed
qed

text \<open>
  A pattern that begins with \<open>\b\<close> and a literal word matches nowhere in a text that lacks
  one of the word's letters.
\<close>

lemma no_match_open_then:
  assumes "lower_char ` set s \<subseteq> A" and "c \<in> set w" and "lower_char c \<notin> A"
  shows "\<not> re_search [IGNORECASE] (wb @ lit w @ ps) s"
proof
  assume "re_search [IGNORECASE] (wb @ lit w @ ps) s"
  then obtain prev' s' where sub: "set s' \<subseteq> set s"
    and m: "match_here [IGNORECASE] (wb @ lit w @ ps) prev' s' \<noteq> None"
    unfolding re_search_def using search_from_position by blast
  from m have "match_here [IGNORECASE] (lit w @ ps) prev' s' \<noteq> None"
    by (simp add: wb_def split: if_splits)
  then have "lower_char ` set w \<subseteq> lower_char ` set s'"
    by (rule match_lit_chars)
  with sub assms(1,2) have "lower_char c \<in> A" by blast
  with assms(3) show False by simp
qed

lemma no_match_open:
  assumes "lower_char ` set s \<subseteq> A" and "c \<in> set w" and "lower_char c \<notin> A"
  shows "\<not> re_search [IGNORECASE] (wb @ lit w) s"
  using no_match_open_then [OF assms, of "[]"] by simp

lemma no_match_word:
  assumes "lower_char ` set s \<subseteq> A" and "c \<in> set w" and "lower_char c \<notin> A"
  shows "\<not> re_search [IGNORECASE] (word w) s"
  using no_match_open_then [OF assms, of wb] by (simp add: word_def)

lemma no_match_word_then:
  assumes "lower_char ` set s \<subseteq> A" and "c \<in> set w" and "lower_char c \<notin> A"
  shows "\<not> re_search [IGNORECASE] (word w @ ps) s"
  using no_match_open_then [OF assms, of "wb @ ps"] by (simp add: word_def)

lemma small_file_text:
  "small_file = ''import os\<newline>import sys\<newline>x = 1\<newline>x = 1\<newline>x = 1\<newline>x = 1\<newline>x = 1\<newline>x = 1\<newline>x = 1\<newline>x = 1\<newline>x = 1\<newline>x = 1\<newline>x = 1\<newline>x = 1\<newline>x = 1\<newline>x = 1\<newline>x = 1\<newline>x = 1\<newline>x = 1\<newline>x = 1\<newline>x = 1\<newline>x = 1\<newline>x = 1\<newline>x = 1\<newline>x = 1\<newline>x = 1\<newline>x = 1\<newline>x = 1\<newline>x = 1\<newline>x = 1\<newline>x = 1\<newline>x = 1\<newline>x = 1\<newline>x = 1\<newline>x = 1\<newline>x = 1\<newline>x = 1\<newline>x = 1\<newline>x = 1\<newline>x = 1\<newline>x = 1\<newline>x = 1\<newline>x = 1\<newline>x = 1\<newline>x = 1\<newline>x = 1\<newline>x = 1\<newline>x = 1\<newline>x = 1\<newline>x = 1\<newline>''"
  by (simp add: small_file_def eval_nat_numeral newline_def)

lemma small_file_chars:
  "lower_char ` set (lower small_file) \<subseteq> set ''import syx=1\<newline>''"
proof -
  have "set small_file \<subseteq> set ''import syx=1\<newline>''"
    unfolding small_file_text by simp
  then have "lower_char ` set (lower small_file)
               \<subseteq> lower_char ` lower_char ` set ''import syx=1\<newline>''"
    unfolding lower_def by auto
  also have "lower_char ` lower_char ` set ''import syx=1\<newline>'' = set ''import syx=1\<newline>''"
    by (simp add: lower_char_table)
  finally show ?thesis .
qed

lemma small_file_no_critical: "find_patterns small_file CRITICAL_PATTERNS = []"
proof -
  have "\<not> re_search [IGNORECASE] (wb @ lit ''auth'') (lower small_file)"
    by (rule no_match_open [OF small_file_chars, of "CHR ''a''"]) (simp_all add: lower_char_table)
  moreover
  have "\<not> re_search [IGNORECASE] (word ''token'') (lower small_file)"
    by (rule no_match_word [OF small_file_chars, of "CHR ''k''"]) (simp_all add: lower_char_table)
  moreover
  have "\<not> re_search [IGNORECASE] (word ''jwt'') (lower small_file)"
    by (rule no_match_word [OF small_file_chars, of "CHR ''j''"]) (simp_all add: lower_char_table)
  moreover
  have "\<not> re_search [IGNORECASE] (word ''secret'') (lower small_file)"
    by (rule no_match_word [OF small_file_chars, of "CHR ''e''"]) (simp_all add: lower_char_table)
  moreover
  have "\<not> re_search [IGNORECASE] (wb @ lit ''credential'') (lower small_file)"
    by (rule no_match_open [OF small_file_chars, of "CHR ''c''"]) (simp_all add: lower_char_table)
  moreover
  have "\<not> re_search [IGNORECASE] (word ''password'') (lower small_file)"
    by (rule no_match_word [OF small_file_chars, of "CHR ''a''"]) (simp_all add: lower_char_table)
  moreover
  have "\<not> re_search [IGNORECASE] (wb @ lit ''permission'') (lower small_file)"
    by (rule no_match_open [OF small_file_chars, of "CHR ''e''"]) (simp_all add: lower_char_table)
  moreover
  have "\<not> re_search [IGNORECASE] (wb @ lit ''access'' @ [Item (Opt Any)] @ lit ''control'') (lower small_file)"
    by (rule no_match_open_then [OF small_file_chars, of "CHR ''a''"]) (simp_all add: lower_char_table)
  moreover
  have "\<not> re_search [IGNORECASE] (wb @ lit ''encrypt'') (lower small_file)"
    by (rule no_match_open [OF small_file_chars, of "CHR ''e''"]) (simp_all add: lower_char_table)
  moreover
  have "\<not> re_search [IGNORECASE] (wb @ lit ''decrypt'') (lower small_file)"
    by (rule no_match_open [OF small_file_chars, of "CHR ''d''"]) (simp_all add: lower_char_table)
  moreover
  have "\<not> re_search [IGNORECASE] (wb @ lit ''private'' @ [Item (Opt Any)] @ lit ''key'') (lower small_file)"
    by (rule no_match_open_then [OF small_file_chars, of "CHR ''a''"]) (simp_all add: lower_char_table)
  moreover
  have "\<not> re_search [IGNORECASE] (wb @ lit ''api'' @ [Item (Opt Any)] @ lit ''key'') (lower small_file)"
    by (rule no_match_open_then [OF small_file_chars, of "CHR ''a''"]) (simp_all add: lower_char_table)
  moreover
  have "\<not> re_search [IGNORECASE] (word ''session'') (lower small_file)"
    by (rule no_match_word [OF small_file_chars, of "CHR ''e''"]) (simp_all add: lower_char_table)
  moreover
  have "\<not> re_search [IGNORECASE] (wb @ lit ''oauth'') (lower small_file)"
    by (rule no_match_open [OF small_file_chars, of "CHR ''a''"]) (simp_all add: lower_char_table)
  moreover
  have "\<not> re_search [IGNORECASE] (wb @ lit ''security'') (lower small_file)"
    by (rule no_match_open [OF small_file_chars, of "CHR ''e''"]) (simp_all add: lower_char_table)
  ultimately show ?thesis
    by (simp add: find_patterns_def CRITICAL_PATTERNS_def)
qed

lemma small_file_no_complexity: "find_patterns small_file COMPLEXITY_PATTERNS = []"
proof -
  have "\<not> re_search [IGNORECASE] (wb @ lit ''async'' @ [Item (Plus Space)] @ lit ''def'' @ wb) (lower small_file)"
    by (rule no_match_open_then [OF small_file_chars, of "CHR ''a''"]) (simp_all add: lower_char_table)
  moreover
  have "\<not> re_search [IGNORECASE] (word ''await'') (lower small_file)"
    by (rule no_match_word [OF small_file_chars, of "CHR ''a''"]) (simp_all add: lower_char_table)
  moreover
  have "\<not> re_search [IGNORECASE] (word ''state'' @ [Item (Star Any)] @ word ''machine'') (lower small_file)"
    by (rule no_match_word_then [OF small_file_chars, of "CHR ''a''"]) (simp_all add: lower_char_table)
  moreover
  have "\<not> re_search [IGNORECASE] (word ''fsm'') (lower small_file)"
    by (rule no_match_word [OF small_file_chars, of "CHR ''f''"]) (simp_all add: lower_char_table)
  moreover
  have "\<not> re_search [IGNORECASE] (word ''transition'') (lower small_file)"
    by (rule no_match_word [OF small_file_chars, of "CHR ''a''"]) (simp_all add: lower_char_table)
  moreover
  have "\<not> re_search [IGNORECASE] (wb @ lit ''circuit'' @ [Item (Opt Any)] @ lit ''breaker'' @ wb) (lower small_file)"
    by (rule no_match_open_then [OF small_file_chars, of "CHR ''c''"]) (simp_all add: lower_char_table)
  moreover
  have "\<not> re_search [IGNORECASE] (word ''retry'') (lower small_file)"
    by (rule no_match_word [OF small_file_chars, of "CHR ''e''"]) (simp_all add: lower_char_table)
  moreover
  have "\<not> re_search [IGNORECASE] (word ''backoff'') (lower small_file)"
    by (rule no_match_word [OF small_file_chars, of "CHR ''b''"]) (simp_all add: lower_char_table)
  moreover
  have "\<not> re_search [IGNORECASE] (word ''lock'') (lower small_file)"
    by (rule no_match_word [OF small_file_chars, of "CHR ''l''"]) (simp_all add: lower_char_table)
  moreover
  have "\<not> re_search [IGNORECASE] (word ''semaphore'') (lower small_file)"
    by (rule no_match_word [OF small_file_chars, of "CHR ''e''"]) (simp_all add: lower_char_table)
  moreover
  have "\<not> re_search [IGNORECASE] (word ''mutex'') (lower small_file)"
    by (rule no_match_word [OF small_file_chars, of "CHR ''u''"]) (simp_all add: lower_char_table)
  moreover
  have "\<not> re_search [IGNORECASE] (word ''thread'') (lower small_file)"
    by (rule no_match_word [OF small_file_chars, of "CHR ''h''"]) (simp_all add: lower_char_table)
  moreover
  have "\<not> re_search [IGNORECASE] (word ''process'') (lower small_file)"
    by (rule no_match_word [OF small_file_chars, of "CHR ''c''"]) (simp_all add: lower_char_table)
  moreover
  have "\<not> re_search [IGNORECASE] (word ''queue'') (lower small_file)"
    by (rule no_match_word [OF small_file_chars, of "CHR ''q''"]) (simp_all add: lower_char_table)
  moreover
  have "\<not> re_search [IGNORECASE] (word ''callback'') (lower small_file)"
    by (rule no_match_word [OF small_file_chars, of "CHR ''c''"]) (simp_all add: lower_char_table)
  moreover
  have "\<not> re_search [IGNORECASE] (wb @ lit ''event'' @ [Item (Opt Any)] @ lit ''loop'' @ wb) (lower small_file)"
    by (rule no_match_open_then [OF small_file_chars, of "CHR ''e''"]) (simp_all add: lower_char_table)
  ultimately show ?thesis
    by (simp add: find_patterns_def COMPLEXITY_PATTERNS_def)
qed

lemma small_file_lines: "count_lines small_file = 50"
  by code_simp

lemma small_file_imports: "count_imports small_file = 2"
  by code_simp

text \<open>The file of 50 lines and 2 imports satisfies the hypotheses and is classified UTILITY.\<close>

theorem small_plain_file_utility_witness:
  "find_patterns small_file CRITICAL_PATTERNS = [] \<and> count_lines small_file = 50
   \<and> count_imports small_file = 2 \<and> find_patterns small_file COMPLEXITY_PATTERNS = []
   \<and> classification (classify_from_content small_file ''small.py'') = UTILITY"
  using small_plain_file_utility [of small_file "''small.py''"]
  by (simp add: small_file_no_critical small_file_no_complexity small_file_lines
      small_file_imports)

text \<open>
  Claim C9. For every source text, \<open>verification_required\<close> of the result is true if and
  only if its classification is CRITICAL or HIGH_COMPLEXITY.
\<close>

theorem verification_required_iff_critical_or_high:
  "verification_required (classify_from_content content file_name) \<longleftrightarrow>
     classification (classify_from_content content file_name) = CRITICAL
     \<or> classification (classify_from_content content file_name) = HIGH_COMPLEXITY"
proof -
  have "verification_required (classify_from_content content file_name) =
          (classification (classify_from_content content file_name) \<in> set [CRITICAL, HIGH_COMPLEXITY])"
    by (rule verification_required_iff)
  then show ?thesis by simp
qed

lemma small_file_classification:
  "classification (classify_from_content small_file ''small.py'') = UTILITY"
  by (simp add: classification_cases Let_def small_file_no_critical small_file_no_complexity
      small_file_lines small_file_imports)

lemma secrets_file_classification:
  "classification (classify_from_content secrets_file ''secrets.py'') = CRITICAL"
proof -
  have "3 \<le> length (find_patterns secrets_file CRITICAL_PATTERNS)"
    by (rule three_critical_patterns) (rule secrets_file_words)+
  then show ?thesis
    by (auto simp add: classification_cases Let_def)
qed

text \<open>Both directions at the two example files: UTILITY without, CRITICAL with the flag.\<close>

theorem verification_required_iff_critical_or_high_witness:
  "classification (classify_from_content small_file ''small.py'') = UTILITY
   \<and> \<not> verification_required (classify_from_content small_file ''small.py'')
   \<and> classification (classify_from_content secrets_file ''secrets.py'') = CRITICAL
   \<and> verification_required (classify_from_content secrets_file ''secrets.py'')"
  using verification_required_iff_critical_or_high [of small_file "''small.py''"]
    verification_required_iff_critical_or_high [of secrets_file "''secrets.py''"]
  by (simp add: small_file_classification secrets_file_classification)

section \<open>Properties of the comment classifier\<close>

lemma classify_standalone:
  "classify_comment txt raw False False line_content = classify_comment txt raw False False None"
  by (cases line_content) (simp_all add: classify_comment_def Let_def)

lemma todo_classified:
  "classify_comment ''TODO: fix this'' ''# TODO: fix this'' False False None =
     (DEBT, REWRITE, ''Debt marker found - resolve or document in design comments'')"
  by code_simp

lemma todo_marker_removed:
  "strip (pattern_sub DEBT_REMOVAL_PATTERN [] ''TODO: fix this'') = ''fix this''"
  by code_simp

lemma todo_suggestion_words:
  "contains ''DESIGN DECISION''
     (''# DESIGN DECISION: fix this'' @ [newline]
      @ ''# Context: [Add why this is deferred and conditions for completion]'')"
  "\<not> contains ''TODO''
     (''# DESIGN DECISION: fix this'' @ [newline]
      @ ''# Context: [Add why this is deferred and conditions for completion]'')"
  by code_simp+

text \<open>
  Claim C5. The standalone comment \<^verbatim>\<open># TODO: fix this\<close> (not a docstring, not inline) is
  classified as type debt with action rewrite, and the suggestion generated for it contains
  "DESIGN DECISION" and does not contain the word "TODO".
\<close>

theorem todo_comment_debt_rewrite:
  "classify_comment ''TODO: fix this'' ''# TODO: fix this'' False False line_content =
     (DEBT, REWRITE, ''Debt marker found - resolve or document in design comments'')
   \<and> suggestion (comment_info n col ''TODO: fix this'' ''# TODO: fix this'' False lc) =
       Some (''# DESIGN DECISION: fix this'' @ [newline]
             @ ''# Context: [Add why this is deferred and conditions for completion]'')
   \<and> contains ''DESIGN DECISION''
        (the (suggestion (comment_info n col ''TODO: fix this'' ''# TODO: fix this'' False lc)))
   \<and> \<not> contains ''TODO''
        (the (suggestion (comment_info n col ''TODO: fix this'' ''# TODO: fix this'' False lc)))"
proof -
  have cls: "classify_comment ''TODO: fix this'' ''# TODO: fix this'' False False l =
               (DEBT, REWRITE, ''Debt marker found - resolve or document in design comments'')"
    for l
    using classify_standalone [of "''TODO: fix this''" "''# TODO: fix this''" l] todo_classified
    by simp
  have sug: "suggestion (comment_info n col ''TODO: fix this'' ''# TODO: fix this'' False lc) =
       Some (''# DESIGN DECISION: fix this'' @ [newline]
             @ ''# Context: [Add why this is deferred and conditions for completion]'')"
    unfolding comment_info_def cls
    by (simp add: suggest_rewrite_def todo_marker_removed)
  show ?thesis
    unfolding sug option.sel using cls sug todo_suggestion_words by simp
qed

text \<open>The comment on line 3 of a file, with the line itself as context.\<close>

theorem todo_comment_debt_rewrite_witness:
  "classify_comment ''TODO: fix this'' ''# TODO: fix this'' False False (Some ''# TODO: fix this'') =
     (DEBT, REWRITE, ''Debt marker found - resolve or document in design comments'')
   \<and> suggestion (comment_info 3 0 ''TODO: fix this'' ''# TODO: fix this'' False ''# TODO: fix this'')
     = Some (''# DESIGN DECISION: fix this'' @ [newline]
             @ ''# Context: [Add why this is deferred and conditions for completion]'')"
  using todo_comment_debt_rewrite [of "Some ''# TODO: fix this''" 3 0 "''# TODO: fix this''"]
  by simp

text \<open>
  Claim C6. The inline comment \<^verbatim>\<open># Increment i\<close> on the line \<^verbatim>\<open>i += 1  # Increment i\<close>
  is classified as type trivial with action delete: the comment pattern of the first trivial
  indicator matches the comment and its code pattern matches the line.
\<close>

theorem increment_comment_trivial_delete:
  "classify_comment ''Increment i'' ''# Increment i'' True False (Some ''i += 1  # Increment i'') =
     (TRIVIAL, DELETE, ''Comment restates what code already says'')
   \<and> pattern_search (fst (hd TRIVIAL_INDICATORS)) ''# Increment i''
   \<and> pattern_search (snd (hd TRIVIAL_INDICATORS)) ''i += 1  # Increment i''"
proof -
  have "classify_comment ''Increment i'' ''# Increment i'' True False
          (Some ''i += 1  # Increment i'') =
        (TRIVIAL, DELETE, ''Comment restates what code already says'')"
    by code_simp
  moreover have "pattern_search (fst (hd TRIVIAL_INDICATORS)) ''# Increment i''"
    by code_simp
  moreover have "pattern_search (snd (hd TRIVIAL_INDICATORS)) ''i += 1  # Increment i''"
    by code_simp
  ultimately show ?thesis by simp
qed

text \<open>
  Claim C10. For a docstring the result of \<open>classify_comment\<close> does not depend on the raw
  text, the inline flag or the line content: it is decided by the length of the text alone,
  enhance below 10 characters and keep from 10 on.
\<close>

theorem docstring_classification_by_length:
  "classify_comment txt raw1 inline1 True line1 = classify_comment txt raw2 inline2 True line2
   \<and> classify_comment txt raw1 inline1 True line1 =
       (if length txt < 10
        then (FUNCTION, ENHANCE, ''Docstring too brief - needs more detail'')
        else (FUNCTION, KEEP, ''Docstring provides API documentation''))"
proof -
  have "classify_comment txt raw inline True line =
          (if length txt < 10
           then (FUNCTION, ENHANCE, ''Docstring too brief - needs more detail'')
           else (FUNCTION, KEEP, ''Docstring provides API documentation''))"
    for raw inline line
    by (simp add: classify_comment_def Let_def)
  then show ?thesis by simp
qed

text \<open>A docstring of 6 characters and one of 20, each in two different contexts.\<close>

theorem docstring_classification_by_length_witness:
  "classify_comment ''Add x.'' ''# TODO'' True True (Some ''i += 1'') =
     classify_comment ''Add x.'' [] False True None
   \<and> classify_comment ''Add x.'' ''# TODO'' True True (Some ''i += 1'') =
     (FUNCTION, ENHANCE, ''Docstring too brief - needs more detail'')
   \<and> classify_comment ''Return the sum of x.'' ''# TODO'' True True (Some ''i += 1'') =
     classify_comment ''Return the sum of x.'' [] False True None
   \<and> classify_comment ''Return the sum of x.'' ''# TODO'' True True (Some ''i += 1'') =
     (FUNCTION, KEEP, ''Docstring provides API documentation'')"
proof -
  have short: "length ''Add x.'' < 10" and long: "\<not> length ''Return the sum of x.'' < 10"
    by simp_all
  show ?thesis
    using docstring_classification_by_length
        [of "''Add x.''" "''# TODO''" True "Some ''i += 1''" "[]" False None]
      docstring_classification_by_length
        [of "''Return the sum of x.''" "''# TODO''" True "Some ''i += 1''" "[]" False None]
    unfolding if_P [OF short] if_not_P [OF long] by blast
qed

end
